theory Spec2Isabelle
  imports Main
begin

unbundle bit_operations_syntax

section \<open>Candidate records and the in-memory store (core/server.py, CandidateStore)\<close>

text \<open>
  A candidate dict read from a request body. Only the keys \<open>name\<close>, \<open>email\<close>,
  \<open>expertise\<close> and \<open>status\<close> are ever read, always through \<open>c.get(key)\<close>, which
  gives Python's \<open>None\<close> for a missing key and for JSON null alike: both are \<open>None\<close>
  here, the empty string is \<open>Some []\<close>. The values are strings, as the endpoints'
  annotations say.
\<close>

record cand_in =
  c_name :: "string option"
  c_email :: "string option"
  c_expertise :: "string option"
  c_status :: "string option"

text \<open>
  A record of the store. \<open>load\<close> writes the four keys name, email, expertise and status
  at once, so a stored record has all four; \<open>name\<close> may be Python's \<open>None\<close>, and the key
  \<open>refToken\<close> is absent (\<open>None\<close>) until \<open>set_ref\<close> writes it.
\<close>

record candidate =
  name :: "string option"
  email :: string
  expertise :: string
  status :: string
  refToken :: "string option"

text \<open>
  \<open>self._store\<close>: a Python dict from email to record. A dict keeps insertion order,
  and \<open>list(self._store.values())\<close> is returned to callers, so the store is an
  association list, oldest key first.
\<close>

type_synonym cstore = "(string \<times> candidate) list"

text \<open>Python's \<open>x or y\<close> for an optional string \<open>x\<close>: \<open>None\<close> and \<open>""\<close> are falsy.\<close>

definition py_or :: "string option \<Rightarrow> string option \<Rightarrow> string option" where
  "py_or x y = (case x of None \<Rightarrow> y | Some s \<Rightarrow> if s = [] then y else Some s)"

definition py_or_str :: "string option \<Rightarrow> string \<Rightarrow> string" where
  "py_or_str x d = (case x of None \<Rightarrow> d | Some s \<Rightarrow> if s = [] then d else s)"

text \<open>
  \<open>d[k] = v\<close> on an insertion-ordered dict: an existing key keeps its place, a new key
  goes to the end.
\<close>

fun dict_set :: "('k \<times> 'v) list \<Rightarrow> 'k \<Rightarrow> 'v \<Rightarrow> ('k \<times> 'v) list" where
  "dict_set [] k v = [(k, v)]"
| "dict_set ((k', v') # kvs) k v =
     (if k' = k then (k, v) # kvs else (k', v') # dict_set kvs k v)"

text \<open>\<open>self._store.get(email)\<close> and \<open>self._store[email] = rec\<close>.\<close>

definition store_get :: "cstore \<Rightarrow> string \<Rightarrow> candidate option" where
  "store_get st k = map_of st k"

definition store_set :: "cstore \<Rightarrow> string \<Rightarrow> candidate \<Rightarrow> cstore" where
  "store_set st k v = dict_set st k v"

text \<open>
  One iteration of the loop of \<open>CandidateStore.load\<close>:
  \<^verbatim>\<open>
    email = c.get("email")
    if not email: continue
    rec = self._store.get(email, {})
    rec.update({"name": c.get("name") or rec.get("name"),
                "email": email,
                "expertise": c.get("expertise") or rec.get("expertise", ""),
                "status": c.get("status") or rec.get("status", "Sourced")})
    self._store[email] = rec
  \<close>
\<close>

definition merge_rec :: "candidate option \<Rightarrow> string \<Rightarrow> cand_in \<Rightarrow> candidate" where
  "merge_rec rec e c =
     \<lparr> name = py_or (c_name c) (case rec of None \<Rightarrow> None | Some r \<Rightarrow> name r),
       email = e,
       expertise = py_or_str (c_expertise c) (case rec of None \<Rightarrow> [] | Some r \<Rightarrow> expertise r),
       status = py_or_str (c_status c) (case rec of None \<Rightarrow> ''Sourced'' | Some r \<Rightarrow> status r),
       refToken = (case rec of None \<Rightarrow> None | Some r \<Rightarrow> refToken r) \<rparr>"

definition load_one :: "cstore \<Rightarrow> cand_in \<Rightarrow> cstore" where
  "load_one st c =
     (case c_email c of
        None \<Rightarrow> st
      | Some e \<Rightarrow> if e = [] then st else store_set st e (merge_rec (store_get st e) e c))"

text \<open>\<open>CandidateStore.load\<close>: the new store, and the returned \<open>list(self._store.values())\<close>.\<close>

definition load_store :: "cstore \<Rightarrow> cand_in list \<Rightarrow> cstore" where
  "load_store st cs = foldl load_one st cs"

definition load :: "cstore \<Rightarrow> cand_in list \<Rightarrow> cstore \<times> candidate list" where
  "load st cs = (load_store st cs, map snd (load_store st cs))"

definition all_cands :: "cstore \<Rightarrow> candidate list" where
  "all_cands st = map snd st"

text \<open>
  \<open>CandidateStore.update_status\<close>: \<open>None\<close> for an unknown email, otherwise the record
  with its status overwritten, stored in place and returned.
\<close>

definition update_status :: "cstore \<Rightarrow> string \<Rightarrow> string \<Rightarrow> cstore \<times> candidate option" where
  "update_status st e s =
     (case store_get st e of
        None \<Rightarrow> (st, None)
      | Some rec \<Rightarrow> (store_set st e (rec\<lparr>status := s\<rparr>), Some (rec\<lparr>status := s\<rparr>)))"

text \<open>\<open>CandidateStore.set_ref\<close>: writes \<open>refToken\<close> of a known email, nothing otherwise.\<close>

definition set_ref :: "cstore \<Rightarrow> string \<Rightarrow> string \<Rightarrow> cstore" where
  "set_ref st e r =
     (case store_get st e of
        None \<Rightarrow> st
      | Some rec \<Rightarrow> store_set st e (rec\<lparr>refToken := Some r\<rparr>))"

section \<open>Events, exceptions and the server state\<close>

text \<open>JSON values, as \<open>json.loads\<close> returns them and as the endpoints put them in results.\<close>

datatype jval =
    JNull
  | JBool bool
  | JNum int
  | JStr string
  | JArr "jval list"
  | JObj "(string \<times> jval) list"

text \<open>
  The exceptions that reach the code modelled here. \<open>HTTPException\<close> carries the status
  code and the detail; \<open>FormatNotModelled\<close> is not a Python exception: it marks a
  template whose replacement field uses a conversion, a format spec, an attribute or an
  index, which this development does not evaluate.
\<close>

datatype exn =
    HTTPException nat string
  | RuntimeError string
  | TypeError string
  | AttributeError string
  | KeyError string
  | IndexError string
  | ValueError string
  | FormatNotModelled

datatype 'a outcome = Raised exn | Returned 'a

text \<open>The \<open>data\<close> argument of \<open>bus.emit(event, data)\<close>, one constructor per shape in the source.\<close>

datatype payload =
    Message string
  | CandList "candidate list"
  | StatusByEmail string string
  | StatusByIndex nat string
  | DoneOk bool
  | DoneScheduled bool "jval list"

type_synonym event = "string \<times> payload"

text \<open>
  The process-wide state: \<open>candidate_store._store\<close>, the events put on \<open>bus.queue\<close>
  (oldest first; a subscriber consumes them in this order), \<open>bus.active_run\<close>, and the
  calls made to \<open>CommunicationTools.send_email\<close> so far as \<open>(to, subject, body, ref_token)\<close>,
  which is the effect of a send on the outside world.
\<close>

record server =
  candidate_store :: cstore
  queue :: "event list"
  active_run :: bool
  outbox :: "(string \<times> string \<times> string \<times> string) list"

definition emit :: "server \<Rightarrow> string \<Rightarrow> payload \<Rightarrow> server" where
  "emit s ev d = s\<lparr>queue := queue s @ [(ev, d)]\<rparr>"

text \<open>
  The dict \<open>{"name": r.get("name"), "email": r.get("email"), "expertise": ..., "status": ...}\<close>
  built for a \<open>candidates\<close> event: the stored record without its \<open>refToken\<close> key.
\<close>

definition cand_view :: "candidate \<Rightarrow> candidate" where
  "cand_view r = r\<lparr>refToken := None\<rparr>"

text \<open>
  \<open>POST /candidates/load\<close>:
  \<^verbatim>\<open>
    candidates = payload.get("candidates") or []
    all_recs = candidate_store.load(candidates)
    await bus.emit("candidates", [... for r in all_recs])
    return {"ok": True, "count": len(all_recs)}
  \<close>
  The result is the pair of \<open>ok\<close> and \<open>count\<close>.
\<close>

definition load_candidates :: "server \<Rightarrow> cand_in list \<Rightarrow> server \<times> (bool \<times> nat) outcome" where
  "load_candidates s candidates =
     (let (st, all_recs) = load (candidate_store s) candidates;
          s1 = s\<lparr>candidate_store := st\<rparr>;
          s2 = emit s1 ''candidates'' (CandList (map cand_view all_recs))
      in (s2, Returned (True, length all_recs)))"

text \<open>\<open>GET /candidates\<close>.\<close>

definition list_candidates :: "server \<Rightarrow> candidate list" where
  "list_candidates s = all_cands (candidate_store s)"

text \<open>
  \<open>PATCH /candidates/{email}/status\<close>:
  \<^verbatim>\<open>
    rec = candidate_store.update_status(email, status)
    if rec is None:
        raise HTTPException(status_code=404, detail="candidate not found")
    await bus.emit("candidate_status", {"email": email, "status": status})
    return {"ok": True, "candidate": rec}
  \<close>
\<close>

definition update_candidate_status ::
    "server \<Rightarrow> string \<Rightarrow> string \<Rightarrow> server \<times> candidate outcome" where
  "update_candidate_status s e status' =
     (let (st, rec) = update_status (candidate_store s) e status';
          s1 = s\<lparr>candidate_store := st\<rparr>
      in case rec of
           None \<Rightarrow> (s1, Raised (HTTPException 404 ''candidate not found''))
         | Some r \<Rightarrow> (emit s1 ''candidate_status'' (StatusByEmail e status'), Returned r))"

section \<open>The merge that the specification describes\<close>

text \<open>
  The specification's words for \<open>load\<close>: records without an email are excluded; the
  others are merged by email, field by field, a later non-empty value overwriting an
  earlier one and an empty or missing value keeping what was there; expertise starts
  empty and status starts as \<open>Sourced\<close>. The definitions below follow those words, not the
  code, and are compared with \<open>load\<close> afterwards.
\<close>

definition emails_of :: "cand_in list \<Rightarrow> string list" where
  "emails_of cs =
     List.map_filter
       (\<lambda>c. case c_email c of None \<Rightarrow> None | Some e \<Rightarrow> if e = [] then None else Some e) cs"

text \<open>The distinct elements of a list, in the order of their first occurrence.\<close>

definition first_occ :: "'a list \<Rightarrow> 'a list" where
  "first_occ xs = rev (remdups (rev xs))"

definition records_for :: "string \<Rightarrow> cand_in list \<Rightarrow> cand_in list" where
  "records_for e cs = filter (\<lambda>c. c_email c = Some e) cs"

fun last_nonempty :: "string option list \<Rightarrow> string option" where
  "last_nonempty [] = None"
| "last_nonempty (x # xs) =
     (case last_nonempty xs of
        Some s \<Rightarrow> Some s
      | None \<Rightarrow> (case x of None \<Rightarrow> None | Some s \<Rightarrow> if s = [] then None else Some s))"

definition merged_record :: "string \<Rightarrow> cand_in list \<Rightarrow> candidate" where
  "merged_record e cs =
     \<lparr> name = last_nonempty (map c_name (records_for e cs)),
       email = e,
       expertise = (case last_nonempty (map c_expertise (records_for e cs)) of
                      None \<Rightarrow> [] | Some x \<Rightarrow> x),
       status = (case last_nonempty (map c_status (records_for e cs)) of
                   None \<Rightarrow> ''Sourced'' | Some x \<Rightarrow> x),
       refToken = None \<rparr>"

definition lww_merge :: "cand_in list \<Rightarrow> cstore" where
  "lww_merge cs = map (\<lambda>e. (e, merged_record e cs)) (first_occ (emails_of cs))"

text \<open>A sequence of \<open>load()\<close> calls on a store, one list of records per call.\<close>

definition load_calls :: "cstore \<Rightarrow> cand_in list list \<Rightarrow> cstore" where
  "load_calls st css = foldl (\<lambda>s cs. fst (load s cs)) st css"

section \<open>The correlation token\<close>

text \<open>
  The token is \<^verbatim>\<open>f"{hash((email, subject)) & 0xfffffff:x}"\<close>, written out at
  \<open>send_outreach\<close> and again at \<open>flow_task\<close>. Python's built-in \<open>hash\<close> is not part
  of the repository: it is the parameter \<open>py_hash\<close> of the environment below, one function
  for the life of the server process. \<open>&\<close> on Python's integers is two's complement, as
  \<open>AND\<close> on \<open>int\<close> is; the format spec \<open>x\<close> prints lower-case hexadecimal without
  prefix or leading zeros.
\<close>

definition hex_digit :: "nat \<Rightarrow> char" where
  "hex_digit d = ''0123456789abcdef'' ! d"

function hex_of_nat :: "nat \<Rightarrow> string" where
  "hex_of_nat n =
     (if n < 16 then [hex_digit n] else hex_of_nat (n div 16) @ [hex_digit (n mod 16)])"
  by pat_completeness auto
termination
  by (relation "measure id") auto

declare hex_of_nat.simps [simp del]

section \<open>The external collaborators\<close>

text \<open>
  What the server calls and does not define, as the parameters of a run:
  \<^item> \<open>py_hash\<close>: the built-in \<open>hash\<close> on the tuple \<open>(email, subject)\<close>;
  \<^item> \<open>send_email\<close>: \<open>CommunicationTools.send_email(to, subject, body, ref_token)\<close>,
    which returns a string or raises (tools/communication_tools.py raises
    \<open>RuntimeError\<close> on a Gmail error; its \<open>send_email\<close> as checked in takes no
    \<open>ref_token\<close>, so that against it the call raises \<open>TypeError\<close> every time, which is
    one of the behaviours this parameter covers);
  \<^item> \<open>json_loads\<close>: \<open>json.loads\<close>, which returns a value or raises;
  \<^item> \<open>search_replies_by_ref_token\<close>: the reply look-up, by the number of the polling
    pass that asks and the token; it returns a list of messages or raises (the class as
    checked in does not define it: \<open>AttributeError\<close>);
  \<^item> \<open>schedule_meeting\<close>: \<open>CommunicationTools.schedule_meeting(attendees, summary,
    description, duration_minutes, timezone_name)\<close>, a string or an exception;
  \<^item> \<open>loop_time\<close>: the successive readings of \<open>asyncio.get_event_loop().time()\<close> during
    one flow, numbered from 0 (seconds, as integers). The time that sends, look-ups and
    \<open>asyncio.sleep(poll_interval)\<close> take shows only in these readings;
  \<^item> \<open>dummy_run\<close>: \<^verbatim>\<open>os.getenv("DUMMY_RUN", "0") == "1" or not os.getenv("OPENAI_API_KEY")\<close>;
  \<^item> \<open>crew_kickoff\<close>: the CrewAI run of the non-simulated orchestrator, by topic: the
    text of its result, or the exception it (or its imports) raises.
\<close>

record env =
  py_hash :: "string \<times> string \<Rightarrow> int"
  send_email :: "string \<Rightarrow> string \<Rightarrow> string \<Rightarrow> string \<Rightarrow> string outcome"
  json_loads :: "string \<Rightarrow> jval outcome"
  search_replies_by_ref_token :: "nat \<Rightarrow> string \<Rightarrow> string list outcome"
  schedule_meeting ::
    "string list \<Rightarrow> string \<Rightarrow> string \<Rightarrow> int \<Rightarrow> string option \<Rightarrow> string outcome"
  loop_time :: "nat \<Rightarrow> int"
  dummy_run :: bool
  crew_kickoff :: "string \<Rightarrow> string outcome"

definition ref_token :: "env \<Rightarrow> string \<Rightarrow> string \<Rightarrow> string" where
  "ref_token E em subject = hex_of_nat (nat (py_hash E (em, subject) AND 0xfffffff))"

section \<open>Rendering the body template: \<open>body_template.format(name=name)\<close>\<close>

text \<open>
  \<open>str.format\<close> with the single keyword argument \<open>name\<close>, left to right as CPython's
  \<open>MarkupIterator\<close> does it: \<open>{{\<close> and \<open>}}\<close> are literal braces; a lone \<open>}\<close> and a
  \<open>{\<close> that is never closed are \<open>ValueError\<close>s; a field \<open>{name}\<close> is replaced by the
  argument; an empty or numeric field asks for a positional argument, of which there is
  none (\<open>IndexError\<close>); any other field name is a \<open>KeyError\<close>. The first failure ends
  the rendering. A field with \<open>!\<close>, \<open>:\<close>, \<open>.\<close> or \<open>[\<close>, and a numeric field of more
  than nine digits, are outside this model (\<open>FormatNotModelled\<close>). The message of the
  \<open>IndexError\<close> for a numeric field leaves the number out.
\<close>

definition is_digit :: "char \<Rightarrow> bool" where
  "is_digit c = (c \<in> set ''0123456789'')"

definition get_field :: "string \<Rightarrow> string \<Rightarrow> string outcome" where
  "get_field nm key =
     (if key = [] then
        Raised (IndexError ''Replacement index 0 out of range for positional args tuple'')
      else if list_all is_digit key then
        (if length key \<le> 9 then
           Raised (IndexError ''Replacement index out of range for positional args tuple'')
         else Raised FormatNotModelled)
      else if key = ''name'' then Returned nm
      else Raised (KeyError key))"

definition prepend :: "string \<Rightarrow> string outcome \<Rightarrow> string outcome" where
  "prepend pre r = (case r of Raised e \<Rightarrow> Raised e | Returned t \<Rightarrow> Returned (pre @ t))"

fun fmt_text :: "string \<Rightarrow> string \<Rightarrow> string outcome"
  and fmt_field :: "string \<Rightarrow> string \<Rightarrow> string \<Rightarrow> string outcome" where
  "fmt_text nm [] = Returned []"
| "fmt_text nm [c] =
     (if c = CHR ''}'' then Raised (ValueError ''Single '}' encountered in format string'')
      else if c = CHR ''{'' then Raised (ValueError ''Single '{' encountered in format string'')
      else Returned [c])"
| "fmt_text nm (c # d # cs) =
     (if c = CHR ''}'' then
        (if d = CHR ''}'' then prepend [c] (fmt_text nm cs)
         else Raised (ValueError ''Single '}' encountered in format string''))
      else if c = CHR ''{'' then
        (if d = CHR ''{'' then prepend [c] (fmt_text nm cs)
         else fmt_field nm [] (d # cs))
      else prepend [c] (fmt_text nm (d # cs)))"
| "fmt_field nm key [] = Raised (ValueError ''expected '}' before end of string'')"
| "fmt_field nm key (c # cs) =
     (if c = CHR ''}'' then
        (case get_field nm key of
           Raised e \<Rightarrow> Raised e
         | Returned v \<Rightarrow> prepend v (fmt_text nm cs))
      else if c = CHR ''{'' then Raised (ValueError ''unexpected '{' in field name'')
      else if c \<in> set ''!:.['' then Raised FormatNotModelled
      else fmt_field nm (key @ [c]) cs)"

definition str_format :: "string \<Rightarrow> string \<Rightarrow> string outcome" where
  "str_format body_template nm = fmt_text nm body_template"

section \<open>\<open>POST /outreach/send\<close>\<close>

text \<open>
  The request body of \<open>/outreach/send\<close> and \<open>/outreach/run-flow\<close>. A string key is read as
  \<open>payload.get(key) or default\<close>; \<open>candidates\<close> as \<open>payload.get("candidates") or []\<close>;
  a number as \<open>int(payload.get(key, default))\<close>, \<open>None\<close> standing for the missing key.
\<close>

record outreach_payload =
  p_subject :: "string option"
  p_bodyTemplate :: "string option"
  p_candidates :: "cand_in list"
  p_windowMinutes :: "int option"
  p_pollEverySeconds :: "int option"
  p_summary :: "string option"
  p_description :: "string option"
  p_duration :: "int option"
  p_timezone :: "string option"

definition default_template :: string where
  "default_template = ''Hi {name}, we'd love to invite you.''"

text \<open>
  The loop of \<open>send_outreach\<close>:
  \<^verbatim>\<open>
    for c in candidates:
        name = c.get("name") or "there"
        email = c.get("email")
        if not email: continue
        ref = f"{hash((email, subject)) & 0xfffffff:x}"
        body = body_template.format(name=name)
        res = CommunicationTools.send_email(to=email, subject=subject, body=body, ref_token=ref)
        try: results.append(json.loads(res))
        except Exception: results.append({"ok": False, "to": email})
        candidate_store.load([{"name": name, "email": email, "status": "Contacted"}])
        candidate_store.set_ref(email, ref)
        await bus.emit("candidate_status", {"email": email, "status": "Contacted"})
  \<close>
  An exception of \<open>format\<close> or of \<open>send_email\<close> is not caught: it leaves the loop with the
  state as it is then.
\<close>

definition contacted :: "string \<Rightarrow> string \<Rightarrow> cand_in" where
  "contacted nm em =
     \<lparr> c_name = Some nm, c_email = Some em, c_expertise = None, c_status = Some ''Contacted'' \<rparr>"

definition track_contacted :: "server \<Rightarrow> string \<Rightarrow> string \<Rightarrow> string \<Rightarrow> server" where
  "track_contacted s nm em ref =
     (let s1 = s\<lparr>candidate_store := fst (load (candidate_store s) [contacted nm em])\<rparr>;
          s2 = s1\<lparr>candidate_store := set_ref (candidate_store s1) em ref\<rparr>
      in emit s2 ''candidate_status'' (StatusByEmail em ''Contacted''))"

definition parse_or :: "env \<Rightarrow> string \<Rightarrow> jval \<Rightarrow> jval" where
  "parse_or E res fallback = (case json_loads E res of Returned j \<Rightarrow> j | Raised _ \<Rightarrow> fallback)"

fun send_each ::
    "env \<Rightarrow> string \<Rightarrow> string \<Rightarrow> cand_in list \<Rightarrow> server \<Rightarrow> jval list \<Rightarrow> server \<times> jval list outcome" where
  "send_each E subject body_template [] s results = (s, Returned results)"
| "send_each E subject body_template (c # cs) s results =
     (let nm = py_or_str (c_name c) ''there'' in
      case c_email c of
        None \<Rightarrow> send_each E subject body_template cs s results
      | Some em \<Rightarrow>
          (if em = [] then send_each E subject body_template cs s results
           else
             let ref = ref_token E em subject in
             case str_format body_template nm of
               Raised e \<Rightarrow> (s, Raised e)
             | Returned body \<Rightarrow>
                 (let s1 = s\<lparr>outbox := outbox s @ [(em, subject, body, ref)]\<rparr> in
                  case send_email E em subject body ref of
                    Raised e \<Rightarrow> (s1, Raised e)
                  | Returned res \<Rightarrow>
                      (let r = parse_or E res (JObj [(''ok'', JBool False), (''to'', JStr em)])
                       in send_each E subject body_template cs
                            (track_contacted s1 nm em ref) (results @ [r])))))"

definition send_outreach :: "env \<Rightarrow> server \<Rightarrow> outreach_payload \<Rightarrow> server \<times> jval outcome" where
  "send_outreach E s payload =
     (let subject = py_or_str (p_subject payload) ''Hackathon Invitation'';
          body_template = py_or_str (p_bodyTemplate payload) default_template;
          candidates = p_candidates payload
      in if candidates = [] then (s, Raised (HTTPException 400 ''candidates required''))
         else case send_each E subject body_template candidates s [] of
                (s1, Raised e) \<Rightarrow> (s1, Raised e)
              | (s1, Returned results) \<Rightarrow>
                  (s1, Returned (JObj [(''ok'', JBool True), (''sent'', JArr results)])))"

section \<open>\<open>POST /outreach/run-flow\<close>: the outreach flow\<close>

text \<open>
  The endpoint itself: the guard on \<open>bus.active_run\<close>, the flag, and the task it creates.
  \<^verbatim>\<open>
    if bus.active_run:
        raise HTTPException(status_code=409, detail="A run is already in progress")
    bus.active_run = True
    ...
    asyncio.create_task(flow_task())
    return {"ok": True, "status": "started"}
  \<close>
  The task runs after the endpoint has returned; it is \<open>flow_task\<close> below.
\<close>

definition run_full_outreach_flow :: "server \<Rightarrow> outreach_payload \<Rightarrow> server \<times> string outcome" where
  "run_full_outreach_flow s payload =
     (if active_run s then (s, Raised (HTTPException 409 ''A run is already in progress''))
      else (s\<lparr>active_run := True\<rparr>, Returned ''started''))"

text \<open>An element of \<open>enriched\<close>: name, email, refToken, the send result, and the \<open>done\<close> mark.\<close>

record enriched_rec =
  e_name :: string
  e_email :: string
  e_refToken :: string
  e_send :: jval
  e_done :: bool

text \<open>
  Step 1 of \<open>flow_task\<close>, the sends:
  \<^verbatim>\<open>
    for c in candidates:
        name = c.get("name") or "there"
        email = c.get("email")
        if not email: continue
        ref = f"{hash((email, subject)) & 0xfffffff:x}"
        body = body_template.format(name=name)
        res_json = CommunicationTools.send_email(to=email, subject=subject, body=body, ref_token=ref)
        try: res = json.loads(res_json)
        except Exception: res = {"ok": False, "to": email, "refToken": ref}
        enriched.append({"name": name, "email": email, "refToken": ref, "send": res})
        candidate_store.load([{"name": name, "email": email, "status": "Contacted"}])
        candidate_store.set_ref(email, ref)
        await bus.emit("candidate_status", {"email": email, "status": "Contacted"})
        await bus.emit("log", {"message": f"[Outreach] Sent to {name} <{email}>"})
  \<close>
\<close>

fun flow_send ::
    "env \<Rightarrow> string \<Rightarrow> string \<Rightarrow> cand_in list \<Rightarrow> server \<Rightarrow> enriched_rec list
      \<Rightarrow> server \<times> enriched_rec list outcome" where
  "flow_send E subject body_template [] s enriched = (s, Returned enriched)"
| "flow_send E subject body_template (c # cs) s enriched =
     (let nm = py_or_str (c_name c) ''there'' in
      case c_email c of
        None \<Rightarrow> flow_send E subject body_template cs s enriched
      | Some em \<Rightarrow>
          (if em = [] then flow_send E subject body_template cs s enriched
           else
             let ref = ref_token E em subject in
             case str_format body_template nm of
               Raised e \<Rightarrow> (s, Raised e)
             | Returned body \<Rightarrow>
                 (let s1 = s\<lparr>outbox := outbox s @ [(em, subject, body, ref)]\<rparr> in
                  case send_email E em subject body ref of
                    Raised e \<Rightarrow> (s1, Raised e)
                  | Returned res_json \<Rightarrow>
                      (let res = parse_or E res_json
                                   (JObj [(''ok'', JBool False), (''to'', JStr em),
                                          (''refToken'', JStr ref)]);
                           en = \<lparr> e_name = nm, e_email = em, e_refToken = ref, e_send = res,
                                  e_done = False \<rparr>;
                           s2 = track_contacted s1 nm em ref;
                           s3 = emit s2 ''log''
                                  (Message (''[Outreach] Sent to '' @ nm @ '' <'' @ em @ ''>''))
                       in flow_send E subject body_template cs s3 (enriched @ [en])))))"

text \<open>The meeting parameters read from the request body.\<close>

record meeting =
  m_summary :: string
  m_description :: string
  m_duration :: int
  m_tz :: "string option"

text \<open>\<open>{"email": e["email"], **meet}\<close>: a \<open>TypeError\<close> when \<open>meet\<close> is not a mapping.\<close>

definition with_email :: "string \<Rightarrow> jval \<Rightarrow> jval outcome" where
  "with_email em meet =
     (case meet of
        JObj kvs \<Rightarrow> Returned (JObj (foldl (\<lambda>d (k, v). dict_set d k v) [(''email'', JStr em)] kvs))
      | _ \<Rightarrow> Raised (TypeError ''argument after ** must be a mapping''))"

text \<open>
  One pass of the \<open>for\<close> loop inside the polling loop, over the elements of \<open>enriched\<close>
  from index \<open>i\<close> on; \<open>n\<close> is the number of the pass.
  \<^verbatim>\<open>
    for idx, e in enumerate(enriched):
        if e.get("done"): continue
        msgs = CommunicationTools.search_replies_by_ref_token(e["refToken"])
        if msgs:
            await bus.emit("log", {"message": f"[Outreach] Reply detected from {e['email']}"})
            meet_json = CommunicationTools.schedule_meeting(attendees=[e["email"]], ...)
            try: meet = json.loads(meet_json)
            except Exception: meet = {"eventId": None}
            e["done"] = True
            scheduled.append({"email": e["email"], **meet})
            candidate_store.update_status(e["email"], "Accepted")
            await bus.emit("candidate_status", {"email": e["email"], "status": "Accepted"})
            await bus.emit("log", {"message": f"[Scheduling] Meeting created for {e['email']}"})
  \<close>
  The result is the state, and either the exception that left the pass or the updated
  \<open>enriched\<close> (the elements already visited first) and \<open>scheduled\<close>.
\<close>

fun poll_pass ::
    "env \<Rightarrow> meeting \<Rightarrow> nat \<Rightarrow> enriched_rec list \<Rightarrow> enriched_rec list \<Rightarrow> jval list \<Rightarrow> server
      \<Rightarrow> server \<times> (enriched_rec list \<times> jval list) outcome" where
  "poll_pass E m n visited [] scheduled s = (s, Returned (visited, scheduled))"
| "poll_pass E m n visited (e # es) scheduled s =
     (if e_done e then poll_pass E m n (visited @ [e]) es scheduled s
      else
        case search_replies_by_ref_token E n (e_refToken e) of
          Raised x \<Rightarrow> (s, Raised x)
        | Returned msgs \<Rightarrow>
            (if msgs = [] then poll_pass E m n (visited @ [e]) es scheduled s
             else
               let s1 = emit s ''log'' (Message (''[Outreach] Reply detected from '' @ e_email e)) in
               case schedule_meeting E [e_email e] (m_summary m) (m_description m)
                      (m_duration m) (m_tz m) of
                 Raised x \<Rightarrow> (s1, Raised x)
               | Returned meet_json \<Rightarrow>
                   (let meet = parse_or E meet_json (JObj [(''eventId'', JNull)]) in
                    case with_email (e_email e) meet of
                      Raised x \<Rightarrow> (s1, Raised x)
                    | Returned entry \<Rightarrow>
                        (let s2 = s1\<lparr>candidate_store :=
                                       fst (update_status (candidate_store s1) (e_email e) ''Accepted'')\<rparr>;
                             s3 = emit s2 ''candidate_status'' (StatusByEmail (e_email e) ''Accepted'');
                             s4 = emit s3 ''log''
                                    (Message (''[Scheduling] Meeting created for '' @ e_email e))
                         in poll_pass E m n (visited @ [e\<lparr>e_done := True\<rparr>]) es
                              (scheduled @ [entry]) s4))))"

text \<open>
  The polling loop:
  \<^verbatim>\<open>
    deadline = asyncio.get_event_loop().time() + window_minutes * 60
    scheduled = []
    while asyncio.get_event_loop().time() < deadline:
        for idx, e in enumerate(enriched): ...
        await asyncio.sleep(poll_interval)
  \<close>
  Reading 0 of the clock fixes the deadline, reading \<open>n + 1\<close> is the test before pass
  \<open>n\<close>. Nothing in the code bounds the number of passes, so the loop takes fuel: \<open>None\<close>
  is a loop that has not ended within \<open>fuel\<close> tests.
\<close>

fun poll_loop ::
    "nat \<Rightarrow> env \<Rightarrow> meeting \<Rightarrow> int \<Rightarrow> nat \<Rightarrow> enriched_rec list \<Rightarrow> jval list \<Rightarrow> server
      \<Rightarrow> (server \<times> jval list outcome) option" where
  "poll_loop 0 E m deadline n enriched scheduled s = None"
| "poll_loop (Suc fuel) E m deadline n enriched scheduled s =
     (if loop_time E (Suc n) < deadline then
        (case poll_pass E m n [] enriched scheduled s of
           (s1, Raised x) \<Rightarrow> Some (s1, Raised x)
         | (s1, Returned (enriched1, scheduled1)) \<Rightarrow>
             poll_loop fuel E m deadline (Suc n) enriched1 scheduled1 s1)
      else Some (s, Returned scheduled))"

text \<open>
  \<open>flow_task\<close>: the body of the \<open>try\<close>, whose last statement publishes \<open>done\<close>, and the
  \<open>finally\<close>, which clears \<open>bus.active_run\<close> and lets an exception pass.
  \<^verbatim>\<open>
    async def flow_task():
        try:
            await bus.emit("log", {"message": "[Outreach] Starting outreach flow"})
            ... sends ...
            await bus.emit("candidates", [{"name": e["name"], "email": e["email"],
                                           "expertise": "", "status": "Contacted"} for e in enriched])
            ... polling ...
            await bus.emit("done", {"ok": True, "scheduled": scheduled})
        finally:
            bus.active_run = False
  \<close>
\<close>

definition enriched_view :: "enriched_rec \<Rightarrow> candidate" where
  "enriched_view e =
     \<lparr> name = Some (e_name e), email = e_email e, expertise = [], status = ''Contacted'',
       refToken = None \<rparr>"

definition meeting_of :: "outreach_payload \<Rightarrow> meeting" where
  "meeting_of payload =
     \<lparr> m_summary = py_or_str (p_summary payload) ''Introductory Meeting'',
       m_description = py_or_str (p_description payload) ''Intro call'',
       m_duration = (case p_duration payload of None \<Rightarrow> 30 | Some d \<Rightarrow> d),
       m_tz = p_timezone payload \<rparr>"

definition flow_body ::
    "nat \<Rightarrow> env \<Rightarrow> outreach_payload \<Rightarrow> server \<Rightarrow> (server \<times> unit outcome) option" where
  "flow_body fuel E payload s0 =
     (let subject = py_or_str (p_subject payload) ''Hackathon Invitation'';
          body_template = py_or_str (p_bodyTemplate payload) default_template;
          window_minutes = (case p_windowMinutes payload of None \<Rightarrow> 30 | Some w \<Rightarrow> w);
          s = emit s0 ''log'' (Message ''[Outreach] Starting outreach flow'')
      in case flow_send E subject body_template (p_candidates payload) s [] of
           (s1, Raised x) \<Rightarrow> Some (s1, Raised x)
         | (s1, Returned enriched) \<Rightarrow>
             (let s2 = emit s1 ''candidates'' (CandList (map enriched_view enriched));
                  deadline = loop_time E 0 + window_minutes * 60
              in case poll_loop fuel E (meeting_of payload) deadline 0 enriched [] s2 of
                   None \<Rightarrow> None
                 | Some (s3, Raised x) \<Rightarrow> Some (s3, Raised x)
                 | Some (s3, Returned scheduled) \<Rightarrow>
                     Some (emit s3 ''done'' (DoneScheduled True scheduled), Returned ())))"

definition flow_task ::
    "nat \<Rightarrow> env \<Rightarrow> outreach_payload \<Rightarrow> server \<Rightarrow> (server \<times> unit outcome) option" where
  "flow_task fuel E payload s =
     (case flow_body fuel E payload s of
        None \<Rightarrow> None
      | Some (s1, r) \<Rightarrow> Some (s1\<lparr>active_run := False\<rparr>, r))"

text \<open>A whole run: the request, and the task it created run to its end.\<close>

definition run_flow ::
    "nat \<Rightarrow> env \<Rightarrow> outreach_payload \<Rightarrow> server \<Rightarrow> (server \<times> unit outcome) option" where
  "run_flow fuel E payload s =
     (case run_full_outreach_flow s payload of
        (s1, Raised x) \<Rightarrow> Some (s1, Raised x)
      | (s1, Returned _) \<Rightarrow> flow_task fuel E payload s1)"

section \<open>\<open>POST /run\<close> and the simulated orchestrator (core/main.py)\<close>

definition mock_results :: "candidate list" where
  "mock_results =
     [\<lparr> name = Some ''Dr. Evelyn Reed'', email = ''e.reed@example.com'',
         expertise = ''Quantum Computing'', status = ''Sourced'', refToken = None \<rparr>,
      \<lparr> name = Some ''Marco Jin'', email = ''m.jin@example.com'',
         expertise = ''AI in FinTech'', status = ''Sourced'', refToken = None \<rparr>,
      \<lparr> name = Some ''Anya Sharma'', email = ''a.sharma@example.com'',
         expertise = ''Decentralized Science'', status = ''Sourced'', refToken = None \<rparr>]"

text \<open>A name inside an f-string: \<open>None\<close> prints as \<open>None\<close>.\<close>

definition name_str :: "candidate \<Rightarrow> string" where
  "name_str r = (case name r of None \<Rightarrow> ''None'' | Some n \<Rightarrow> n)"

text \<open>
  \<open>run_orchestrator\<close> with its three callbacks, which act on the server state. In dummy
  mode it replays the fixed scenario; otherwise it hands over to CrewAI and logs the
  result. The \<open>time.sleep\<close> calls of \<open>simulate_timing\<close> change no state.
\<close>

definition contact_step ::
    "(string \<Rightarrow> server \<Rightarrow> server) \<Rightarrow> (nat \<Rightarrow> string \<Rightarrow> server \<Rightarrow> server)
      \<Rightarrow> server \<Rightarrow> nat \<times> candidate \<Rightarrow> server" where
  "contact_step on_log on_candidate_status s ic =
     on_candidate_status (fst ic) ''Contacted''
       (on_log (''[SchedulingAgent] Sending outreach email to '' @ name_str (snd ic) @ ''.'') s)"

definition run_orchestrator ::
    "env \<Rightarrow> string \<Rightarrow> (string \<Rightarrow> server \<Rightarrow> server) \<Rightarrow> (candidate list \<Rightarrow> server \<Rightarrow> server)
      \<Rightarrow> (nat \<Rightarrow> string \<Rightarrow> server \<Rightarrow> server) \<Rightarrow> server \<Rightarrow> server \<times> unit outcome" where
  "run_orchestrator E topic on_log on_candidates_found on_candidate_status s0 =
     (let s = on_log (''--- Launching Orchestrator for topic: '' @ topic @ '' ---'') s0 in
      if dummy_run E then
        (let s = on_log ''Running in DUMMY mode (no external LLM calls).'' s;
             s = on_log ''[SourcingAgent] Starting search...'' s;
             s = on_log ''[SourcingAgent] Found 3 potential candidates.'' s;
             s = on_candidates_found mock_results s;
             s = on_log ''[SourcingAgent] Task complete. Passing results to SchedulingAgent.'' s;
             s = on_log ''[SchedulingAgent] Initializing outreach sequence...'' s;
             s = foldl (contact_step on_log on_candidate_status) s (enumerate 0 mock_results);
             s = on_log (''[SchedulingAgent] Received positive reply from Dr. Evelyn Reed. ''
                          @ ''Scheduling meeting.'') s;
             s = on_candidate_status 0 ''Accepted'' s;
             s = on_log ''[SchedulingAgent] Task complete.'' s;
             s = on_log ''--- Crew Run Complete (Simulated) ---'' s
         in (s, Returned ()))
      else
        (case crew_kickoff E topic of
           Raised x \<Rightarrow> (s, Raised x)
         | Returned result \<Rightarrow>
             (on_log result (on_log (CHR 0x0A # ''--- Crew Run Complete ---'') s), Returned ())))"

text \<open>The callbacks that \<open>start_run\<close> passes: each one emits an event.\<close>

definition on_log :: "string \<Rightarrow> server \<Rightarrow> server" where
  "on_log message s = emit s ''log'' (Message message)"

definition on_candidates_found :: "candidate list \<Rightarrow> server \<Rightarrow> server" where
  "on_candidates_found cands s = emit s ''candidates'' (CandList cands)"

definition on_candidate_status :: "nat \<Rightarrow> string \<Rightarrow> server \<Rightarrow> server" where
  "on_candidate_status index' status' s = emit s ''candidate_status'' (StatusByIndex index' status')"

text \<open>
  \<open>POST /run\<close>: the guard and the flag, then the task \<open>run_in_thread\<close>, whose \<open>finally\<close>
  publishes \<open>done\<close> and clears the flag whatever \<open>run_orchestrator\<close> did.
  \<^verbatim>\<open>
    async def run_in_thread() -> None:
        try:
            await loop.run_in_executor(None, lambda: run_orchestrator(...))
        finally:
            await bus.emit("done", {"ok": True})
            bus.active_run = False
  \<close>
\<close>

definition start_run :: "server \<Rightarrow> string \<Rightarrow> server \<times> string outcome" where
  "start_run s topic =
     (if active_run s then (s, Raised (HTTPException 409 ''A run is already in progress''))
      else (s\<lparr>active_run := True\<rparr>, Returned ''started''))"

definition run_in_thread :: "env \<Rightarrow> string \<Rightarrow> server \<Rightarrow> server \<times> unit outcome" where
  "run_in_thread E topic s =
     (let (s1, r) = run_orchestrator E topic on_log on_candidates_found on_candidate_status s;
          s2 = emit s1 ''done'' (DoneOk True)
      in (s2\<lparr>active_run := False\<rparr>, r))"

definition run_topic :: "env \<Rightarrow> string \<Rightarrow> server \<Rightarrow> server \<times> unit outcome" where
  "run_topic E topic s =
     (case start_run s topic of
        (s1, Raised x) \<Rightarrow> (s1, Raised x)
      | (s1, Returned _) \<Rightarrow> run_in_thread E topic s1)"

section \<open>The demo helpers\<close>

text \<open>
  \<open>_simulate_outreach_sequence(enriched)\<close>: every candidate is contacted, the first one
  accepts, then \<open>done\<close>. The sleeps change no state.
\<close>

definition simulate_contact :: "server \<Rightarrow> candidate \<Rightarrow> server" where
  "simulate_contact s e =
     (let s1 = emit s ''log''
                 (Message (''[SchedulingAgent] Sending outreach email to '' @ name_str e @ ''.''));
          s2 = s1\<lparr>candidate_store := fst (update_status (candidate_store s1) (email e) ''Contacted'')\<rparr>
      in emit s2 ''candidate_status'' (StatusByEmail (email e) ''Contacted''))"

definition simulate_accept :: "server \<Rightarrow> candidate \<Rightarrow> server" where
  "simulate_accept s first =
     (let s1 = emit s ''log''
                 (Message (''[SchedulingAgent] Received positive reply from '' @ name_str first
                           @ ''. Scheduling meeting.''));
          s2 = s1\<lparr>candidate_store := fst (update_status (candidate_store s1) (email first) ''Accepted'')\<rparr>
      in emit s2 ''candidate_status'' (StatusByEmail (email first) ''Accepted''))"

definition simulate_outreach_sequence :: "candidate list \<Rightarrow> server \<Rightarrow> server" where
  "simulate_outreach_sequence enriched s0 =
     (let s = emit s0 ''log'' (Message ''[SchedulingAgent] Initializing outreach sequence...'');
          s = foldl simulate_contact s enriched;
          s = (case enriched of [] \<Rightarrow> s | first # _ \<Rightarrow> simulate_accept s first);
          s = emit s ''log'' (Message ''[SchedulingAgent] Task complete.'')
      in emit s ''done'' (DoneOk True))"

text \<open>
  \<open>POST /demo/start-outreach\<close>: no look at \<open>bus.active_run\<close>, and no write to it.
  \<^verbatim>\<open>
    enriched = candidate_store.all()
    if not enriched:
        await bus.emit("log", {"message": "[Outreach] No candidates loaded."})
        await bus.emit("done", {"ok": False})
        return {"ok": False, "reason": "no candidates"}
    asyncio.create_task(_simulate_outreach_sequence(enriched))
    return {"ok": True}
  \<close>
  The result is \<open>ok\<close>; the created task is run to its end here.
\<close>

definition demo_start_outreach :: "server \<Rightarrow> server \<times> bool" where
  "demo_start_outreach s =
     (let enriched = all_cands (candidate_store s) in
      if enriched = [] then
        (emit (emit s ''log'' (Message ''[Outreach] No candidates loaded.'')) ''done'' (DoneOk False),
         False)
      else (simulate_outreach_sequence enriched s, True))"

section \<open>Reading the event queue\<close>

definition init_server :: server where
  "init_server = \<lparr> candidate_store = [], queue = [], active_run = False, outbox = [] \<rparr>"

text \<open>The events published, and the sends made, between an earlier and a later state.\<close>

definition new_events :: "server \<Rightarrow> server \<Rightarrow> event list" where
  "new_events s s' = drop (length (queue s)) (queue s')"

definition sent_since :: "server \<Rightarrow> server \<Rightarrow> (string \<times> string \<times> string \<times> string) list" where
  "sent_since s s' = drop (length (outbox s)) (outbox s')"

definition of_kind :: "string \<Rightarrow> event list \<Rightarrow> payload list" where
  "of_kind kind evs = map snd (filter (\<lambda>ev. fst ev = kind) evs)"

section \<open>Concrete environments and states for the examples\<close>

text \<open>
  An environment in which the mail provider returns the sentence that \<open>send_email\<close> of
  tools/communication_tools.py returns on success, which \<open>json.loads\<close> rejects; nobody ever
  replies; the clock advances one second per reading; the orchestrator runs in dummy mode.
  The hash is a stand-in: any function will do.
\<close>

definition plain_env :: env where
  "plain_env =
     \<lparr> py_hash = (\<lambda>(em, subject). int (length em) + 256 * int (length subject)),
       send_email = (\<lambda>to subject body ref.
                       Returned (''Email successfully sent to '' @ to @ ''. Message ID: 1'')),
       json_loads = (\<lambda>text. Raised (ValueError ''Expecting value'')),
       search_replies_by_ref_token = (\<lambda>n ref. Returned []),
       schedule_meeting = (\<lambda>attendees summary description duration tz.
                             Raised (RuntimeError ''Calendar API error'')),
       loop_time = (\<lambda>k. int k),
       dummy_run = True,
       crew_kickoff = (\<lambda>topic. Raised (RuntimeError ''crew'')) \<rparr>"

text \<open>The same, with a provider that raises for one recipient, as on a Gmail error.\<close>

definition failing_for :: "string \<Rightarrow> env" where
  "failing_for bad =
     plain_env\<lparr>send_email := (\<lambda>to subject body ref.
        if to = bad then Raised (RuntimeError ''Gmail API error'')
        else Returned (''Email successfully sent to '' @ to @ ''. Message ID: 1''))\<rparr>"

definition ada :: cand_in where
  "ada = \<lparr> c_name = Some ''Ada'', c_email = Some ''ada@x.com'', c_expertise = None,
           c_status = None \<rparr>"

definition bob :: cand_in where
  "bob = \<lparr> c_name = Some ''Bob'', c_email = Some ''bob@x.com'', c_expertise = None,
           c_status = None \<rparr>"

definition payload_of :: "string \<Rightarrow> cand_in list \<Rightarrow> outreach_payload" where
  "payload_of template cs =
     \<lparr> p_subject = Some ''Hi'', p_bodyTemplate = Some template, p_candidates = cs,
       p_windowMinutes = Some 0, p_pollEverySeconds = Some 1, p_summary = None,
       p_description = None, p_duration = None, p_timezone = None \<rparr>"

text \<open>A server with a run in progress and one sourced candidate in the registry.\<close>

definition busy_server :: server where
  "busy_server =
     \<lparr> candidate_store =
         [(''ada@x.com'', \<lparr> name = Some ''Ada'', email = ''ada@x.com'', expertise = [],
                            status = ''Sourced'', refToken = None \<rparr>)],
       queue = [], active_run = True, outbox = [] \<rparr>"

section \<open>Predicates used in the statements\<close>

text \<open>A recorded send carries the token of its recipient and subject.\<close>

definition token_ok :: "env \<Rightarrow> string \<times> string \<times> string \<times> string \<Rightarrow> bool" where
  "token_ok E x = (case x of (to, sj, b, r) \<Rightarrow> r = ref_token E to sj)"

text \<open>
  What one iteration of a send loop (of \<open>send_outreach\<close> or of \<open>flow_task\<close>) will do with
  a candidate: skip it for want of an email; fail to render the template; render it and
  have the provider raise; or render it and get a response, which may or may not decode.
\<close>

datatype step =
    Skip
  | FormatFails string exn
  | SendFails string string exn
  | Sent string string string

definition send_step :: "env \<Rightarrow> string \<Rightarrow> string \<Rightarrow> cand_in \<Rightarrow> step" where
  "send_step E subject body_template c =
     (case c_email c of
        None \<Rightarrow> Skip
      | Some em \<Rightarrow>
          (if em = [] then Skip
           else case str_format body_template (py_or_str (c_name c) ''there'') of
                  Raised x \<Rightarrow> FormatFails em x
                | Returned body \<Rightarrow>
                    (case send_email E em subject body (ref_token E em subject) of
                       Raised x \<Rightarrow> SendFails em body x
                     | Returned reply \<Rightarrow> Sent em body reply)))"

text \<open>The template renders and the provider returns a response, decodable or not.\<close>

definition send_returns :: "env \<Rightarrow> string \<Rightarrow> string \<Rightarrow> cand_in \<Rightarrow> bool" where
  "send_returns E subject body_template c =
     (case send_step E subject body_template c of
        Skip \<Rightarrow> True
      | Sent _ _ _ \<Rightarrow> True
      | FormatFails _ _ \<Rightarrow> False
      | SendFails _ _ _ \<Rightarrow> False)"

text \<open>
  For an element of \<open>enriched\<close> in pass \<open>n\<close>: the reply look-up returns, and if there
  is a reply the scheduling call returns a response that is undecodable or decodes to an
  object.
\<close>

definition is_object :: "jval \<Rightarrow> bool" where
  "is_object j = (case j of JObj _ \<Rightarrow> True | _ \<Rightarrow> False)"

definition poll_returns :: "env \<Rightarrow> meeting \<Rightarrow> nat \<Rightarrow> enriched_rec \<Rightarrow> bool" where
  "poll_returns E m n e =
     (if e_done e then True
      else case search_replies_by_ref_token E n (e_refToken e) of
             Raised _ \<Rightarrow> False
           | Returned msgs \<Rightarrow>
               (if msgs = [] then True
                else case schedule_meeting E [e_email e] (m_summary m) (m_description m)
                            (m_duration m) (m_tz m) of
                       Raised _ \<Rightarrow> False
                     | Returned meet_json \<Rightarrow>
                         is_object (parse_or E meet_json (JObj [(''eventId'', JNull)]))))"

text \<open>Text without braces, and the name of a replacement field that this model evaluates.\<close>

definition brace_free :: "string \<Rightarrow> bool" where
  "brace_free t = list_all (\<lambda>c. c \<notin> set ''{}'') t"

definition field_name :: "string \<Rightarrow> bool" where
  "field_name key =
     (if key = [] then False
      else if list_all is_digit key then False
      else list_all (\<lambda>c. c \<notin> set ''{}!:.['') key)"

text \<open>
  An environment in which every candidate has replied and the calendar call returns a
  sentence, which \<open>json.loads\<close> rejects as it does the mail provider's.
\<close>

definition replying_env :: env where
  "replying_env =
     plain_env\<lparr>search_replies_by_ref_token := (\<lambda>n ref. Returned [''Yes, gladly.'']),
               schedule_meeting := (\<lambda>attendees summary description duration tz.
                                      Returned ''Event created.'')\<rparr>"

definition contacted_rec :: "string \<Rightarrow> string \<Rightarrow> string \<Rightarrow> enriched_rec" where
  "contacted_rec nm em ref =
     \<lparr> e_name = nm, e_email = em, e_refToken = ref,
       e_send = JObj [(''ok'', JBool False), (''to'', JStr em), (''refToken'', JStr ref)],
       e_done = False \<rparr>"

section \<open>The store: basic facts\<close>

lemma py_or_simps [simp]:
  "py_or None y = y" "py_or (Some []) y = y" "s \<noteq> [] \<Longrightarrow> py_or (Some s) y = Some s"
  by (simp_all add: py_or_def)

lemma py_or_str_simps [simp]:
  "py_or_str None d = d" "py_or_str (Some []) d = d" "s \<noteq> [] \<Longrightarrow> py_or_str (Some s) d = s"
  by (simp_all add: py_or_str_def)

lemma map_of_dict_set: "map_of (dict_set kvs k v) = (map_of kvs)(k \<mapsto> v)"
  by (induction kvs) (auto simp: fun_eq_iff)

lemma keys_dict_set:
  "map fst (dict_set kvs k v) = (if k \<in> fst ` set kvs then map fst kvs else map fst kvs @ [k])"
  by (induction kvs) (force simp: image_iff)+

lemma store_get_store_set: "store_get (store_set st k v) = (store_get st)(k \<mapsto> v)"
  by (simp add: store_get_def store_set_def map_of_dict_set fun_eq_iff)

lemma store_get_None_iff: "store_get st k = None \<longleftrightarrow> k \<notin> fst ` set st"
  by (simp add: store_get_def map_of_eq_None_iff)

lemma keys_store_set_known:
  "store_get st k = Some r \<Longrightarrow> map fst (store_set st k v) = map fst st"
  using store_get_None_iff[of st k] by (simp add: store_set_def keys_dict_set)

lemma store_set_map_in:
  "distinct ks \<Longrightarrow> e \<in> set ks \<Longrightarrow>
   store_set (map (\<lambda>k. (k, f k)) ks) e v = map (\<lambda>k. (k, if k = e then v else f k)) ks"
  by (induction ks) (auto simp: store_set_def)

lemma store_set_map_notin:
  "e \<notin> set ks \<Longrightarrow> store_set (map (\<lambda>k. (k, f k)) ks) e v = map (\<lambda>k. (k, f k)) ks @ [(e, v)]"
  by (induction ks) (auto simp: store_set_def)

lemma store_get_map:
  "store_get (map (\<lambda>k. (k, f k)) ks) e = (if e \<in> set ks then Some (f e) else None)"
  by (induction ks) (auto simp: store_get_def)

section \<open>\<open>load\<close> against the specification's merge\<close>

lemma last_nonempty_snoc: "last_nonempty (xs @ [x]) = py_or x (last_nonempty xs)"
  by (induction xs) (auto simp: py_or_def split: option.splits)

lemma first_occ_snoc:
  "first_occ (xs @ [e]) = (if e \<in> set xs then first_occ xs else first_occ xs @ [e])"
  by (simp add: first_occ_def)

lemma distinct_first_occ: "distinct (first_occ xs)"
  by (simp add: first_occ_def)

lemma set_first_occ: "set (first_occ xs) = set xs"
  by (simp add: first_occ_def)

lemma emails_of_snoc:
  "emails_of (cs @ [c]) =
     emails_of cs @ (case c_email c of None \<Rightarrow> [] | Some e \<Rightarrow> if e = [] then [] else [e])"
  by (simp add: emails_of_def map_filter_def split: option.splits)

lemma emails_of_Nil: "emails_of [] = []"
  by (simp add: emails_of_def map_filter_def)

lemma emails_of_iff:
  "e \<in> set (emails_of cs) \<longleftrightarrow> e \<noteq> [] \<and> (\<exists>c \<in> set cs. c_email c = Some e)"
  by (induction cs rule: rev_induct)
     (auto simp: emails_of_snoc emails_of_Nil split: option.splits if_splits)

lemma records_for_snoc:
  "records_for e (cs @ [c]) = records_for e cs @ (if c_email c = Some e then [c] else [])"
  by (simp add: records_for_def)

lemma records_for_Nil: "e \<noteq> [] \<Longrightarrow> e \<notin> set (emails_of cs) \<Longrightarrow> records_for e cs = []"
  by (auto simp: records_for_def emails_of_iff filter_empty_conv)

lemma load_one_lww: "load_one (lww_merge cs) c = lww_merge (cs @ [c])"
proof (cases "c_email c")
  case None
  then show ?thesis
    by (simp add: load_one_def lww_merge_def emails_of_snoc merged_record_def records_for_snoc)
next
  case (Some e)
  show ?thesis
  proof (cases "e = []")
    case True
    have "merged_record k (cs @ [c]) = merged_record k cs" if "k \<in> set (emails_of cs)" for k
      using that Some True by (auto simp: merged_record_def records_for_snoc emails_of_iff)
    then show ?thesis using Some True
      by (simp add: load_one_def lww_merge_def emails_of_snoc set_first_occ)
  next
    case False
    have other: "merged_record k (cs @ [c]) = merged_record k cs" if "k \<noteq> e" for k
      using that Some by (auto simp: merged_record_def records_for_snoc)
    show ?thesis
    proof (cases "e \<in> set (emails_of cs)")
      case True
      have "merge_rec (Some (merged_record e cs)) e c = merged_record e (cs @ [c])"
        using Some
        by (auto simp: merge_rec_def merged_record_def records_for_snoc last_nonempty_snoc
            py_or_def py_or_str_def split: option.splits)
      then show ?thesis using Some False True other
        by (auto simp: load_one_def lww_merge_def emails_of_snoc first_occ_snoc store_get_map
            set_first_occ store_set_map_in distinct_first_occ)
    next
      case notin: False
      have "merge_rec None e c = merged_record e (cs @ [c])"
        using Some records_for_Nil[OF False notin]
        by (auto simp: merge_rec_def merged_record_def records_for_snoc
            py_or_def py_or_str_def split: option.splits)
      moreover have "merged_record k (cs @ [c]) = merged_record k cs"
        if "k \<in> set (emails_of cs)" for k
        using that notin other[of k] by auto
      ultimately show ?thesis using Some False notin
        by (auto simp: load_one_def lww_merge_def emails_of_snoc first_occ_snoc store_get_map
            set_first_occ store_set_map_notin)
    qed
  qed
qed

lemma load_store_lww: "load_store (lww_merge cs) ds = lww_merge (cs @ ds)"
proof (induction ds rule: rev_induct)
  case Nil
  show ?case by (simp add: load_store_def)
next
  case (snoc d ds)
  then show ?case using load_one_lww[of "cs @ ds" d] by (simp add: load_store_def)
qed

lemma lww_merge_Nil: "lww_merge [] = []"
  by (simp add: lww_merge_def emails_of_Nil first_occ_def)

lemma load_calls_lww: "load_calls (lww_merge cs) css = lww_merge (cs @ concat css)"
  by (induction css arbitrary: cs) (simp_all add: load_calls_def load_def load_store_lww)

text \<open>
  C4. Whatever \<open>load()\<close> calls \<open>css\<close> came before on a fresh registry, a further call
  \<open>load(cs)\<close> leaves the registry equal to the specification's merge of all the records
  submitted so far, in the order submitted: keyed by email, a later non-empty value
  overwriting, an empty or missing value keeping the earlier one, status \<open>Sourced\<close> when
  none was ever given, records without an email left out. The call returns the records of
  that whole registry.
\<close>

theorem load_is_last_write_wins_merge:
  "fst (load (load_calls [] css) cs) = lww_merge (concat css @ cs) \<and>
   snd (load (load_calls [] css) cs) = map snd (lww_merge (concat css @ cs))"
  using load_calls_lww[of "[]" css] load_store_lww[of "concat css" cs]
  by (simp add: lww_merge_Nil load_def)

text \<open>
  Scenario C of the specification: \<open>{name: "A", status: "Sourced"}\<close> and then
  \<open>{name: "", expertise: "ML"}\<close> for the same email, with a record without email in
  between, give the one record \<open>{name: "A", expertise: "ML", status: "Sourced"}\<close>.
\<close>

theorem load_scenario_C:
  "snd (load (load_calls []
          [[\<lparr>c_name = Some ''A'', c_email = Some ''a@x.com'', c_expertise = None,
             c_status = Some ''Sourced''\<rparr>,
            \<lparr>c_name = Some ''B'', c_email = None, c_expertise = None, c_status = None\<rparr>]])
        [\<lparr>c_name = Some [], c_email = Some ''a@x.com'', c_expertise = Some ''ML'',
           c_status = None\<rparr>])
   = [\<lparr>name = Some ''A'', email = ''a@x.com'', expertise = ''ML'', status = ''Sourced'',
        refToken = None\<rparr>]"
  using load_is_last_write_wins_merge
    [of "[[\<lparr>c_name = Some ''A'', c_email = Some ''a@x.com'', c_expertise = None,
             c_status = Some ''Sourced''\<rparr>,
           \<lparr>c_name = Some ''B'', c_email = None, c_expertise = None, c_status = None\<rparr>]]"
        "[\<lparr>c_name = Some [], c_email = Some ''a@x.com'', c_expertise = Some ''ML'',
           c_status = None\<rparr>]"]
  by (simp add: lww_merge_def emails_of_def map_filter_def first_occ_def merged_record_def
      records_for_def)

section \<open>\<open>update_status\<close> and \<open>PATCH /candidates/{email}/status\<close>\<close>

text \<open>
  C6. For an email that is not in the registry, \<open>update_status\<close> returns \<open>None\<close> and the
  endpoint raises the 404, and the whole server state (registry, events, flag) is what
  it was: no record is created and nothing is published. For a known email the endpoint
  returns the record with the new status; that record differs from the old one in its
  status only, every other email keeps its record, and the keys of the registry and
  their order are the same.
\<close>

theorem update_status_unknown_and_known:
  "(store_get (candidate_store s) e = None \<longrightarrow>
      update_status (candidate_store s) e x = (candidate_store s, None) \<and>
      update_candidate_status s e x = (s, Raised (HTTPException 404 ''candidate not found''))) \<and>
   (store_get (candidate_store s) e = Some r \<longrightarrow>
      snd (update_candidate_status s e x) = Returned (r\<lparr>status := x\<rparr>) \<and>
      store_get (candidate_store (fst (update_candidate_status s e x))) e = Some (r\<lparr>status := x\<rparr>) \<and>
      (\<forall>k. k \<noteq> e \<longrightarrow>
         store_get (candidate_store (fst (update_candidate_status s e x))) k
           = store_get (candidate_store s) k) \<and>
      map fst (candidate_store (fst (update_candidate_status s e x)))
        = map fst (candidate_store s) \<and>
      queue (fst (update_candidate_status s e x))
        = queue s @ [(''candidate_status'', StatusByEmail e x)])"
  by (auto simp: update_status_def update_candidate_status_def emit_def store_get_store_set
      keys_store_set_known)

text \<open>
  An unknown email on the empty registry; then a registry with two records, where the
  status of the first is set and the second keeps its record.
\<close>

theorem update_status_unknown_and_known_witness:
  "store_get (candidate_store init_server) ''ghost@x.com'' = None \<and>
   update_candidate_status init_server ''ghost@x.com'' ''Accepted''
     = (init_server, Raised (HTTPException 404 ''candidate not found'')) \<and>
   store_get (candidate_store
       (init_server\<lparr>candidate_store := lww_merge [ada, bob]\<rparr>)) ''ada@x.com''
     = Some \<lparr>name = Some ''Ada'', email = ''ada@x.com'', expertise = [], status = ''Sourced'',
             refToken = None\<rparr> \<and>
   snd (update_candidate_status
          (init_server\<lparr>candidate_store := lww_merge [ada, bob]\<rparr>) ''ada@x.com'' ''Accepted'')
     = Returned \<lparr>name = Some ''Ada'', email = ''ada@x.com'', expertise = [],
                 status = ''Accepted'', refToken = None\<rparr> \<and>
   ''bob@x.com'' \<noteq> ''ada@x.com'' \<and>
   store_get (candidate_store (fst (update_candidate_status
          (init_server\<lparr>candidate_store := lww_merge [ada, bob]\<rparr>) ''ada@x.com'' ''Accepted'')))
       ''bob@x.com''
     = Some \<lparr>name = Some ''Bob'', email = ''bob@x.com'', expertise = [], status = ''Sourced'',
             refToken = None\<rparr>"
proof -
  let ?s = "init_server\<lparr>candidate_store := lww_merge [ada, bob]\<rparr>"
  let ?a = "\<lparr>name = Some ''Ada'', email = ''ada@x.com'', expertise = [], status = ''Sourced'',
             refToken = None\<rparr>"
  have st: "lww_merge [ada, bob]
      = [(''ada@x.com'', ?a),
         (''bob@x.com'', \<lparr>name = Some ''Bob'', email = ''bob@x.com'', expertise = [],
                           status = ''Sourced'', refToken = None\<rparr>)]"
    by (simp add: lww_merge_def emails_of_def map_filter_def first_occ_def merged_record_def
        records_for_def ada_def bob_def)
  have g: "store_get (candidate_store init_server) ''ghost@x.com'' = None"
    by (simp add: init_server_def store_get_def)
  have k: "store_get (candidate_store ?s) ''ada@x.com'' = Some ?a"
    by (simp add: st store_get_def)
  have b: "store_get (candidate_store ?s) ''bob@x.com''
      = Some \<lparr>name = Some ''Bob'', email = ''bob@x.com'', expertise = [], status = ''Sourced'',
               refToken = None\<rparr>"
    by (simp add: st store_get_def)
  show ?thesis
    using update_status_unknown_and_known [of init_server "''ghost@x.com''" "''Accepted''" ?a]
      update_status_unknown_and_known [of ?s "''ada@x.com''" "''Accepted''" ?a]
      g k b
    by simp
qed

section \<open>\<open>POST /candidates/load\<close>: the count\<close>

lemma keys_load_one:
  "map fst (load_one st c) =
     (case c_email c of
        None \<Rightarrow> map fst st
      | Some e \<Rightarrow> if e = [] \<or> e \<in> fst ` set st then map fst st else map fst st @ [e])"
  by (auto simp: load_one_def store_set_def keys_dict_set split: option.splits)

lemma keys_load_store:
  "distinct (map fst st) \<Longrightarrow>
   distinct (map fst (load_store st cs)) \<and>
   set (map fst (load_store st cs)) = set (map fst st) \<union> set (emails_of cs)"
proof (induction cs rule: rev_induct)
  case Nil
  then show ?case by (simp add: load_store_def emails_of_Nil)
next
  case (snoc c cs)
  have step: "load_store st (cs @ [c]) = load_one (load_store st cs) c"
    by (simp add: load_store_def)
  show ?case using snoc
    unfolding step keys_load_one emails_of_snoc
    by (auto split: option.splits)
qed

text \<open>
  C10. The count that \<open>POST /candidates/load\<close> returns is the number of records in the
  registry after the merge, which is the number of distinct emails among the records
  that were there before and the submitted records that have a non-empty email. (The keys
  of the registry are distinct, as those of a dict are.)
\<close>

theorem load_candidates_count:
  assumes "distinct (map fst (candidate_store s))"
  shows "snd (load_candidates s cs)
           = Returned (True, length (candidate_store (fst (load_candidates s cs)))) \<and>
         length (candidate_store (fst (load_candidates s cs)))
           = card (fst ` set (candidate_store s) \<union> set (emails_of cs))"
proof -
  let ?st = "load_store (candidate_store s) cs"
  have d: "distinct (map fst ?st)"
    and k: "set (map fst ?st) = set (map fst (candidate_store s)) \<union> set (emails_of cs)"
    using keys_load_store[OF assms, of cs] by simp_all
  have "length ?st = length (map fst ?st)" by simp
  also have "\<dots> = card (set (map fst ?st))" using d by (simp only: distinct_card)
  finally have "length ?st = card (fst ` set (candidate_store s) \<union> set (emails_of cs))"
    using k by simp
  then show ?thesis
    by (simp add: load_candidates_def load_def emit_def)
qed

text \<open>
  Two records are in the registry; a request submits one record, which has no email: the
  count returned is 2, not 1.
\<close>

theorem load_candidates_count_witness:
  "distinct (map fst (lww_merge
      [contacted ''Ada'' ''ada@x.com'', contacted ''Bob'' ''bob@x.com''])) \<and>
   snd (load_candidates
          (init_server\<lparr>candidate_store :=
             lww_merge [contacted ''Ada'' ''ada@x.com'', contacted ''Bob'' ''bob@x.com'']\<rparr>)
          [\<lparr>c_name = Some ''Eve'', c_email = None, c_expertise = None, c_status = None\<rparr>])
     = Returned (True, 2)"
proof -
  let ?s = "init_server\<lparr>candidate_store :=
             lww_merge [contacted ''Ada'' ''ada@x.com'', contacted ''Bob'' ''bob@x.com'']\<rparr>"
  let ?cs = "[\<lparr>c_name = Some ''Eve'', c_email = None, c_expertise = None, c_status = None\<rparr>]"
  have d: "distinct (map fst (candidate_store ?s))"
    by (simp add: lww_merge_def emails_of_def map_filter_def first_occ_def contacted_def)
  have "length (candidate_store (fst (load_candidates ?s ?cs))) = 2"
    by (simp add: load_candidates_def load_def load_store_def load_one_def emit_def
        lww_merge_def emails_of_def map_filter_def first_occ_def contacted_def)
  then show ?thesis
    using load_candidates_count[OF d, of ?cs] d by simp
qed

section \<open>Events\<close>

lemma queue_emit [simp]: "queue (emit s k d) = queue s @ [(k, d)]"
  and active_emit [simp]: "active_run (emit s k d) = active_run s"
  and store_emit [simp]: "candidate_store (emit s k d) = candidate_store s"
  and outbox_emit [simp]: "outbox (emit s k d) = outbox s"
  by (simp_all add: emit_def)

lemma new_events_append [simp]: "queue s' = queue s @ evs \<Longrightarrow> new_events s s' = evs"
  by (simp add: new_events_def)

section \<open>The simulated run\<close>

lemma run_orchestrator_dummy_queue:
  "dummy_run E \<Longrightarrow>
   queue (fst (run_orchestrator E topic on_log on_candidates_found on_candidate_status s)) =
     queue s @
     [(''log'', Message (''--- Launching Orchestrator for topic: '' @ topic @ '' ---'')),
      (''log'', Message ''Running in DUMMY mode (no external LLM calls).''),
      (''log'', Message ''[SourcingAgent] Starting search...''),
      (''log'', Message ''[SourcingAgent] Found 3 potential candidates.''),
      (''candidates'', CandList mock_results),
      (''log'', Message ''[SourcingAgent] Task complete. Passing results to SchedulingAgent.''),
      (''log'', Message ''[SchedulingAgent] Initializing outreach sequence...''),
      (''log'', Message ''[SchedulingAgent] Sending outreach email to Dr. Evelyn Reed.''),
      (''candidate_status'', StatusByIndex 0 ''Contacted''),
      (''log'', Message ''[SchedulingAgent] Sending outreach email to Marco Jin.''),
      (''candidate_status'', StatusByIndex 1 ''Contacted''),
      (''log'', Message ''[SchedulingAgent] Sending outreach email to Anya Sharma.''),
      (''candidate_status'', StatusByIndex 2 ''Contacted''),
      (''log'', Message ''[SchedulingAgent] Received positive reply from Dr. Evelyn Reed. Scheduling meeting.''),
      (''candidate_status'', StatusByIndex 0 ''Accepted''),
      (''log'', Message ''[SchedulingAgent] Task complete.''),
      (''log'', Message ''--- Crew Run Complete (Simulated) ---'')]"
  by (simp add: run_orchestrator_def Let_def on_log_def on_candidates_found_def
      on_candidate_status_def contact_step_def mock_results_def name_str_def numeral_2_eq_2)

lemma run_orchestrator_dummy_result:
  "dummy_run E \<Longrightarrow>
   snd (run_orchestrator E topic on_log on_candidates_found on_candidate_status s) = Returned ()"
  by (simp add: run_orchestrator_def Let_def)

lemma run_in_thread_queue:
  "queue (fst (run_in_thread E topic s)) =
     queue (fst (run_orchestrator E topic on_log on_candidates_found on_candidate_status s))
       @ [(''done'', DoneOk True)]"
  and run_in_thread_result:
  "snd (run_in_thread E topic s) =
     snd (run_orchestrator E topic on_log on_candidates_found on_candidate_status s)"
  and run_in_thread_flag: "\<not> active_run (fst (run_in_thread E topic s))"
  by (simp_all add: run_in_thread_def split_beta Let_def)

lemma start_run_queue [simp]: "queue (fst (start_run s topic)) = queue s"
  by (simp add: start_run_def)



text \<open>
  The demo helper \<open>_simulate_outreach_sequence\<close> replays the same steps over the list it
  is given: \<open>Contacted\<close> for each candidate, \<open>Accepted\<close> once, for the first, \<open>done\<close> last.
\<close>

lemma foldl_simulate_contact_queue:
  "queue (foldl simulate_contact s es) =
     queue s @ concat (map (\<lambda>e.
        [(''log'', Message (''[SchedulingAgent] Sending outreach email to '' @ name_str e @ ''.'')),
         (''candidate_status'', StatusByEmail (email e) ''Contacted'')]) es)"
  by (induction es arbitrary: s) (simp_all add: simulate_contact_def Let_def)

lemma of_kind_append [simp]: "of_kind k (xs @ ys) = of_kind k xs @ of_kind k ys"
  by (simp add: of_kind_def)

lemma of_kind_Cons [simp]:
  "of_kind k (ev # evs) = (if fst ev = k then snd ev # of_kind k evs else of_kind k evs)"
  and of_kind_Nil [simp]: "of_kind k [] = []"
  by (simp_all add: of_kind_def)

lemma of_kind_contacts:
  "of_kind ''candidate_status'' (concat (map (\<lambda>e.
        [(''log'', Message (f e)), (''candidate_status'', StatusByEmail (email e) ''Contacted'')]) es))
     = map (\<lambda>e. StatusByEmail (email e) ''Contacted'') es"
  and of_kind_contacts_done:
  "of_kind ''done'' (concat (map (\<lambda>e.
        [(''log'', Message (f e)), (''candidate_status'', StatusByEmail (email e) ''Contacted'')]) es))
     = []"
  by (induction es) simp_all

lemma simulate_outreach_sequence_events:
  "of_kind ''candidate_status'' (new_events s (simulate_outreach_sequence (first # rest) s))
     = map (\<lambda>e. StatusByEmail (email e) ''Contacted'') (first # rest)
         @ [StatusByEmail (email first) ''Accepted''] \<and>
   of_kind ''done'' (new_events s (simulate_outreach_sequence (first # rest) s)) = [DoneOk True] \<and>
   last (new_events s (simulate_outreach_sequence (first # rest) s)) = (''done'', DoneOk True)"
proof -
  let ?c = "\<lambda>e. [(''log'', Message (''[SchedulingAgent] Sending outreach email to '' @ name_str e @ ''.'')),
         (''candidate_status'', StatusByEmail (email e) ''Contacted'')]"
  have "queue (simulate_outreach_sequence (first # rest) s) = queue s @
      ((''log'', Message ''[SchedulingAgent] Initializing outreach sequence...'') #
       concat (map ?c (first # rest)) @
       [(''log'', Message (''[SchedulingAgent] Received positive reply from '' @ name_str first
                           @ ''. Scheduling meeting.'')),
        (''candidate_status'', StatusByEmail (email first) ''Accepted''),
        (''log'', Message ''[SchedulingAgent] Task complete.''),
        (''done'', DoneOk True)])"
    using foldl_simulate_contact_queue[of _ "first # rest"]
    by (simp add: simulate_outreach_sequence_def simulate_accept_def Let_def
        del: foldl_Cons)
  from new_events_append[OF this] show ?thesis
    using of_kind_contacts[of _ rest] of_kind_contacts_done[of _ rest] by simp
qed

section \<open>The guard on the run-active flag\<close>




section \<open>The correlation token\<close>

lemma hex_digit_in: "d < 16 \<Longrightarrow> hex_digit d \<in> set ''0123456789abcdef''"
  unfolding hex_digit_def by (rule nth_mem) simp

lemma hex_of_nat_chars: "set (hex_of_nat n) \<subseteq> set ''0123456789abcdef''"
proof (induction n rule: hex_of_nat.induct)
  case (1 n)
  show ?case
  proof (cases "n < 16")
    case True
    then show ?thesis using hex_digit_in[of n] by (subst hex_of_nat.simps) simp
  next
    case False
    have "n mod 16 < 16" by simp
    then show ?thesis using False 1 hex_digit_in[of "n mod 16"]
      by (subst hex_of_nat.simps) simp
  qed
qed

lemma hex_of_nat_nonempty: "hex_of_nat n \<noteq> []"
  by (subst hex_of_nat.simps) simp

lemma hex_of_nat_length: "n < 16 ^ k \<Longrightarrow> 0 < k \<Longrightarrow> length (hex_of_nat n) \<le> k"
proof (induction n arbitrary: k rule: hex_of_nat.induct)
  case (1 n)
  show ?case
  proof (cases "n < 16")
    case True
    then show ?thesis using 1(3) by (subst hex_of_nat.simps) simp
  next
    case False
    then obtain j where k: "k = Suc j" and j: "0 < j"
      using 1(2,3) by (cases k; cases "k - 1") auto
    have "n div 16 < 16 ^ j" using 1(2) k by (simp add: less_mult_imp_div_less mult.commute)
    from 1(1)[OF False this j] show ?thesis using False k
      by (subst hex_of_nat.simps) simp
  qed
qed

lemma masked_range: "nat ((h::int) AND 0xfffffff) < 16 ^ 7"
proof -
  have "h AND 0xfffffff \<le> 0xfffffff" by (rule AND_upper2) simp
  moreover have "(16::nat) ^ 7 = 268435456" by simp
  ultimately show ?thesis by linarith
qed

lemma ref_token_wellformed:
  "ref_token E em subject \<noteq> [] \<and> length (ref_token E em subject) \<le> 7 \<and>
   set (ref_token E em subject) \<subseteq> set ''0123456789abcdef''"
proof -
  let ?h = "py_hash E (em, subject) AND 0xfffffff"
  have "nat ?h < 16 ^ 7" by (rule masked_range)
  from hex_of_nat_length[OF this] show ?thesis
    unfolding ref_token_def using hex_of_nat_nonempty hex_of_nat_chars by simp
qed

lemma ref_token_cong: "py_hash E1 = py_hash E2 \<Longrightarrow> ref_token E1 em subject = ref_token E2 em subject"
  by (simp add: ref_token_def)

section \<open>Rendering the template\<close>

lemma prepend_simps [simp]:
  "prepend pre (Raised x) = Raised x" "prepend pre (Returned t) = Returned (pre @ t)"
  by (simp_all add: prepend_def)

lemma prepend_prepend [simp]: "prepend a (prepend b r) = prepend (a @ b) r"
  by (cases r) simp_all

lemma prepend_Nil [simp]: "prepend [] r = r"
  by (cases r) simp_all

lemma fmt_text_plain_char:
  "c \<noteq> CHR ''{'' \<Longrightarrow> c \<noteq> CHR ''}'' \<Longrightarrow> fmt_text nm (c # rest) = prepend [c] (fmt_text nm rest)"
  by (cases rest) simp_all

lemma fmt_text_brace_free:
  "brace_free pre \<Longrightarrow> fmt_text nm (pre @ rest) = prepend pre (fmt_text nm rest)"
  by (induction pre) (simp_all add: brace_free_def fmt_text_plain_char)

lemma fmt_field_plain:
  "list_all (\<lambda>c. c \<notin> set ''{}!:.['') key \<Longrightarrow>
   fmt_field nm acc (key @ CHR ''}'' # post) =
     (case get_field nm (acc @ key) of
        Raised e \<Rightarrow> Raised e
      | Returned v \<Rightarrow> prepend v (fmt_text nm post))"
  by (induction key arbitrary: acc) simp_all

lemma fmt_text_open:
  "list_all (\<lambda>c. c \<notin> set ''{}!:.['') key \<Longrightarrow>
   fmt_text nm (CHR ''{'' # key @ CHR ''}'' # post) = fmt_field nm [] (key @ CHR ''}'' # post)"
  by (cases key) simp_all

lemma str_format_field:
  assumes "brace_free pre" and "list_all (\<lambda>c. c \<notin> set ''{}!:.['') key"
  shows "str_format (pre @ ''{'' @ key @ ''}'' @ post) nm =
           (case get_field nm key of
              Raised e \<Rightarrow> Raised e
            | Returned v \<Rightarrow> prepend (pre @ v) (fmt_text nm post))"
  using assms
  by (simp add: str_format_def fmt_text_brace_free fmt_text_open fmt_field_plain
      split: outcome.splits)

lemma str_format_other_field:
  assumes "brace_free pre" and "field_name key" and "key \<noteq> ''name''"
  shows "str_format (pre @ ''{'' @ key @ ''}'' @ post) nm = Raised (KeyError key)"
proof -
  have k: "list_all (\<lambda>c. c \<notin> set ''{}!:.['') key" "key \<noteq> []" "\<not> list_all is_digit key"
    using assms(2) by (auto simp: field_name_def split: if_splits)
  have "get_field nm key = Raised (KeyError key)"
    using k(2,3) assms(3) by (simp add: get_field_def)
  then show ?thesis using str_format_field[OF assms(1) k(1), of post nm] by simp
qed

lemma str_format_name_field:
  assumes "brace_free pre" and "brace_free post"
  shows "str_format (pre @ ''{name}'' @ post) nm = Returned (pre @ nm @ post)"
proof -
  have "fmt_text nm post = Returned post"
    using fmt_text_brace_free[OF assms(2), of nm "[]"] by simp
  moreover have "get_field nm ''name'' = Returned nm"
    by (simp add: get_field_def is_digit_def)
  ultimately show ?thesis
    using str_format_field[OF assms(1), of "''name''" post nm] by simp
qed

section \<open>The send loops, step by step\<close>

lemma track_contacted_simps [simp]:
  "outbox (track_contacted s nm em ref) = outbox s"
  "active_run (track_contacted s nm em ref) = active_run s"
  "queue (track_contacted s nm em ref)
     = queue s @ [(''candidate_status'', StatusByEmail em ''Contacted'')]"
  by (simp_all add: track_contacted_def Let_def)

lemma emails_of_Cons:
  "emails_of (c # cs) =
     (case c_email c of None \<Rightarrow> [] | Some e \<Rightarrow> if e = [] then [] else [e]) @ emails_of cs"
  by (simp add: emails_of_def map_filter_def split: option.splits)

lemma send_each_Skip:
  "send_step E subj tmpl c = Skip \<Longrightarrow>
   send_each E subj tmpl (c # cs) s res = send_each E subj tmpl cs s res"
  by (auto simp: send_step_def Let_def split: option.splits if_splits outcome.splits)

lemma send_each_FormatFails:
  "send_step E subj tmpl c = FormatFails em x \<Longrightarrow>
   send_each E subj tmpl (c # cs) s res = (s, Raised x)"
  by (auto simp: send_step_def Let_def split: option.splits if_splits outcome.splits)

lemma send_each_SendFails:
  "send_step E subj tmpl c = SendFails em body x \<Longrightarrow>
   send_each E subj tmpl (c # cs) s res
     = (s\<lparr>outbox := outbox s @ [(em, subj, body, ref_token E em subj)]\<rparr>, Raised x)"
  by (auto simp: send_step_def Let_def split: option.splits if_splits outcome.splits)

lemma send_each_Sent:
  "send_step E subj tmpl c = Sent em body reply \<Longrightarrow>
   send_each E subj tmpl (c # cs) s res
     = send_each E subj tmpl cs
         (track_contacted (s\<lparr>outbox := outbox s @ [(em, subj, body, ref_token E em subj)]\<rparr>)
            (py_or_str (c_name c) ''there'') em (ref_token E em subj))
         (res @ [parse_or E reply (JObj [(''ok'', JBool False), (''to'', JStr em)])])"
  by (auto simp: send_step_def Let_def split: option.splits if_splits outcome.splits)

lemma flow_send_Skip:
  "send_step E subj tmpl c = Skip \<Longrightarrow>
   flow_send E subj tmpl (c # cs) s en = flow_send E subj tmpl cs s en"
  by (auto simp: send_step_def Let_def split: option.splits if_splits outcome.splits)

lemma flow_send_FormatFails:
  "send_step E subj tmpl c = FormatFails em x \<Longrightarrow>
   flow_send E subj tmpl (c # cs) s en = (s, Raised x)"
  by (auto simp: send_step_def Let_def split: option.splits if_splits outcome.splits)

lemma flow_send_SendFails:
  "send_step E subj tmpl c = SendFails em body x \<Longrightarrow>
   flow_send E subj tmpl (c # cs) s en
     = (s\<lparr>outbox := outbox s @ [(em, subj, body, ref_token E em subj)]\<rparr>, Raised x)"
  by (auto simp: send_step_def Let_def split: option.splits if_splits outcome.splits)

lemma flow_send_Sent:
  "send_step E subj tmpl c = Sent em body reply \<Longrightarrow>
   flow_send E subj tmpl (c # cs) s en
     = flow_send E subj tmpl cs
         (emit (track_contacted (s\<lparr>outbox := outbox s @ [(em, subj, body, ref_token E em subj)]\<rparr>)
                  (py_or_str (c_name c) ''there'') em (ref_token E em subj))
            ''log'' (Message (''[Outreach] Sent to '' @ py_or_str (c_name c) ''there''
                               @ '' <'' @ em @ ''>'')))
         (en @ [\<lparr> e_name = py_or_str (c_name c) ''there'', e_email = em,
                  e_refToken = ref_token E em subj,
                  e_send = parse_or E reply (JObj [(''ok'', JBool False), (''to'', JStr em),
                                                    (''refToken'', JStr (ref_token E em subj))]),
                  e_done = False \<rparr>])"
  by (auto simp: send_step_def Let_def split: option.splits if_splits outcome.splits)

declare send_each.simps(2) [simp del] flow_send.simps(2) [simp del]

lemma send_each_outbox:
  "\<exists>ys. outbox (fst (send_each E subj tmpl cs s res)) = outbox s @ ys \<and> list_all (token_ok E) ys"
proof (induction cs arbitrary: s res)
  case Nil
  show ?case by simp
next
  case (Cons c cs)
  show ?case
  proof (cases "send_step E subj tmpl c")
    case Skip
    then show ?thesis using Cons[of s res] by (simp add: send_each_Skip)
  next
    case (FormatFails em x)
    then show ?thesis by (simp add: send_each_FormatFails)
  next
    case (SendFails em body x)
    then show ?thesis by (simp add: send_each_SendFails token_ok_def)
  next
    case (Sent em body reply)
    show ?thesis
      unfolding send_each_Sent[OF Sent]
      using Cons[of "track_contacted (s\<lparr>outbox := outbox s @ [(em, subj, body, ref_token E em subj)]\<rparr>)
            (py_or_str (c_name c) ''there'') em (ref_token E em subj)"
          "res @ [parse_or E reply (JObj [(''ok'', JBool False), (''to'', JStr em)])]"]
      by (auto simp: token_ok_def)
  qed
qed

lemma flow_send_outbox:
  "\<exists>ys. outbox (fst (flow_send E subj tmpl cs s en)) = outbox s @ ys \<and> list_all (token_ok E) ys"
proof (induction cs arbitrary: s en)
  case Nil
  show ?case by simp
next
  case (Cons c cs)
  show ?case
  proof (cases "send_step E subj tmpl c")
    case Skip
    then show ?thesis using Cons[of s en] by (simp add: flow_send_Skip)
  next
    case (FormatFails em x)
    then show ?thesis by (simp add: flow_send_FormatFails)
  next
    case (SendFails em body x)
    then show ?thesis by (simp add: flow_send_SendFails token_ok_def)
  next
    case (Sent em body reply)
    show ?thesis
      unfolding flow_send_Sent[OF Sent]
      using Cons[of "emit (track_contacted (s\<lparr>outbox := outbox s @ [(em, subj, body, ref_token E em subj)]\<rparr>)
                  (py_or_str (c_name c) ''there'') em (ref_token E em subj))
            ''log'' (Message (''[Outreach] Sent to '' @ py_or_str (c_name c) ''there''
                               @ '' <'' @ em @ ''>''))" 
          "en @ [\<lparr> e_name = py_or_str (c_name c) ''there'', e_email = em,
                  e_refToken = ref_token E em subj,
                  e_send = parse_or E reply (JObj [(''ok'', JBool False), (''to'', JStr em),
                                                    (''refToken'', JStr (ref_token E em subj))]),
                  e_done = False \<rparr>]"]
      by (auto simp: token_ok_def)
  qed
qed

lemma flow_send_quiet:
  "of_kind ''done'' (queue (fst (flow_send E subj tmpl cs s en))) = of_kind ''done'' (queue s) \<and>
   active_run (fst (flow_send E subj tmpl cs s en)) = active_run s"
proof (induction cs arbitrary: s en)
  case Nil
  show ?case by simp
next
  case (Cons c cs)
  show ?case
  proof (cases "send_step E subj tmpl c")
    case Skip
    then show ?thesis using Cons[of s en] by (simp add: flow_send_Skip)
  next
    case (FormatFails em x)
    then show ?thesis by (simp add: flow_send_FormatFails)
  next
    case (SendFails em body x)
    then show ?thesis by (simp add: flow_send_SendFails)
  next
    case (Sent em body reply)
    show ?thesis
      unfolding flow_send_Sent[OF Sent] by (simp add: Cons)
  qed
qed

lemma flow_send_enriched:
  "snd (flow_send E subj tmpl cs s en) = Returned en' \<Longrightarrow>
   \<exists>new. en' = en @ new \<and> list_all (\<lambda>e. e_refToken e = ref_token E (e_email e) subj) new"
proof (induction cs arbitrary: s en)
  case Nil
  then show ?case by simp
next
  case (Cons c cs)
  show ?case
  proof (cases "send_step E subj tmpl c")
    case Skip
    then show ?thesis using Cons by (simp add: flow_send_Skip)
  next
    case (FormatFails em x)
    then show ?thesis using Cons.prems by (simp add: flow_send_FormatFails)
  next
    case (SendFails em body x)
    then show ?thesis using Cons.prems by (simp add: flow_send_SendFails)
  next
    case (Sent em body reply)
    from Cons.IH[OF Cons.prems[unfolded flow_send_Sent[OF Sent]]]
    show ?thesis by auto
  qed
qed

lemma flow_send_all_return:
  "list_all (send_returns E subj tmpl) cs \<Longrightarrow>
   \<exists>new evs ys.
     snd (flow_send E subj tmpl cs s en) = Returned (en @ new) \<and>
     map e_email new = emails_of cs \<and>
     queue (fst (flow_send E subj tmpl cs s en)) = queue s @ evs \<and>
     of_kind ''candidate_status'' evs = map (\<lambda>em. StatusByEmail em ''Contacted'') (emails_of cs) \<and>
     outbox (fst (flow_send E subj tmpl cs s en)) = outbox s @ ys \<and>
     map fst ys = emails_of cs"
proof (induction cs arbitrary: s en)
  case Nil
  show ?case by (simp add: emails_of_Nil)
next
  case (Cons c cs)
  then have rest: "list_all (send_returns E subj tmpl) cs" by simp
  show ?case
  proof (cases "send_step E subj tmpl c")
    case Skip
    then have "emails_of (c # cs) = emails_of cs"
      by (auto simp: emails_of_Cons send_step_def split: option.splits if_splits outcome.splits)
    then show ?thesis using Cons.IH[OF rest, of s en] Skip by (simp add: flow_send_Skip)
  next
    case (FormatFails em x)
    then show ?thesis using Cons.prems by (simp add: send_returns_def)
  next
    case (SendFails em body x)
    then show ?thesis using Cons.prems by (simp add: send_returns_def)
  next
    case (Sent em body reply)
    then have em: "emails_of (c # cs) = em # emails_of cs"
      by (auto simp: emails_of_Cons send_step_def split: option.splits if_splits outcome.splits)
    show ?thesis
      unfolding flow_send_Sent[OF Sent] em
      using Cons.IH[OF rest, of "emit (track_contacted (s\<lparr>outbox := outbox s @ [(em, subj, body, ref_token E em subj)]\<rparr>)
                  (py_or_str (c_name c) ''there'') em (ref_token E em subj))
            ''log'' (Message (''[Outreach] Sent to '' @ py_or_str (c_name c) ''there''
                               @ '' <'' @ em @ ''>''))" 
          "en @ [\<lparr> e_name = py_or_str (c_name c) ''there'', e_email = em,
                  e_refToken = ref_token E em subj,
                  e_send = parse_or E reply (JObj [(''ok'', JBool False), (''to'', JStr em),
                                                    (''refToken'', JStr (ref_token E em subj))]),
                  e_done = False \<rparr>]"]
      by (auto simp: Cons_eq_map_conv)
  qed
qed

section \<open>The polling loop\<close>

lemma poll_pass_quiet:
  "of_kind ''done'' (queue (fst (poll_pass E m n vis es sch s))) = of_kind ''done'' (queue s) \<and>
   active_run (fst (poll_pass E m n vis es sch s)) = active_run s \<and>
   outbox (fst (poll_pass E m n vis es sch s)) = outbox s"
  by (induction E m n vis es sch s rule: poll_pass.induct)
     (auto simp: Let_def split: outcome.splits)

lemma poll_loop_quiet:
  "poll_loop fuel E m deadline n en sch s = Some (s', r) \<Longrightarrow>
   of_kind ''done'' (queue s') = of_kind ''done'' (queue s) \<and>
   active_run s' = active_run s \<and> outbox s' = outbox s"
proof (induction fuel arbitrary: n en sch s)
  case 0
  then show ?case by simp
next
  case (Suc fuel)
  show ?case
  proof (cases "loop_time E (Suc n) < deadline")
    case False
    then show ?thesis using Suc.prems by simp
  next
    case True
    obtain s1 r1 where p: "poll_pass E m n [] en sch s = (s1, r1)" by (cases "poll_pass E m n [] en sch s")
    have q: "of_kind ''done'' (queue s1) = of_kind ''done'' (queue s)"
      "active_run s1 = active_run s" "outbox s1 = outbox s"
      using poll_pass_quiet[of E m n "[]" en sch s] p by simp_all
    show ?thesis
    proof (cases r1)
      case (Raised x)
      then show ?thesis using Suc.prems True p q by simp
    next
      case (Returned v)
      obtain en1 sch1 where v: "v = (en1, sch1)" by (cases v)
      have "poll_loop fuel E m deadline (Suc n) en1 sch1 s1 = Some (s', r)"
        using Suc.prems True p Returned v by simp
      from Suc.IH[OF this] show ?thesis using q by simp
    qed
  qed
qed

text \<open>Once a reading of the clock has reached the deadline, enough fuel ends the loop.\<close>

lemma poll_loop_ends:
  "\<not> loop_time E (Suc (n + k)) < deadline \<Longrightarrow>
   \<exists>res. poll_loop (Suc k) E m deadline n en sch s = Some res"
proof (induction k arbitrary: n en sch s)
  case 0
  then show ?case by simp
next
  case (Suc k)
  show ?case
  proof (cases "loop_time E (Suc n) < deadline")
    case False
    then show ?thesis by simp
  next
    case True
    obtain s1 r1 where p: "poll_pass E m n [] en sch s = (s1, r1)" by (cases "poll_pass E m n [] en sch s")
    show ?thesis
    proof (cases r1)
      case (Raised x)
      then show ?thesis using True p by simp
    next
      case (Returned v)
      obtain en1 sch1 where v: "v = (en1, sch1)" by (cases v)
      have "\<not> loop_time E (Suc (Suc n + k)) < deadline" using Suc.prems by simp
      from Suc.IH[OF this, of en1 sch1 s1] show ?thesis
        using True p Returned v by simp
    qed
  qed
qed

lemma poll_pass_all_return:
  "list_all (poll_returns E m n) es \<Longrightarrow>
   \<exists>es' sch'. snd (poll_pass E m n vis es sch s) = Returned (vis @ es', sch') \<and>
     map e_email es' = map e_email es \<and>
     map e_done es' = map (\<lambda>e. if e_done e then True
                          else search_replies_by_ref_token E n (e_refToken e) \<noteq> Returned []) es"
proof (induction es arbitrary: vis sch s)
  case Nil
  show ?case by simp
next
  case (Cons e es)
  then have rest: "list_all (poll_returns E m n) es" and e: "poll_returns E m n e" by simp_all
  show ?case
  proof (cases "e_done e")
    case True
    then show ?thesis using Cons.IH[OF rest, of "vis @ [e]" sch s] by auto
  next
    case False
    then obtain msgs where msgs: "search_replies_by_ref_token E n (e_refToken e) = Returned msgs"
      using e by (auto simp: poll_returns_def split: outcome.splits)
    show ?thesis
    proof (cases "msgs = []")
      case True
      then show ?thesis using False msgs Cons.IH[OF rest, of "vis @ [e]" sch s] by auto
    next
      case nonempty: False
      then obtain mj kvs where
        mj: "schedule_meeting E [e_email e] (m_summary m) (m_description m) (m_duration m) (m_tz m)
              = Returned mj"
        and obj: "parse_or E mj (JObj [(''eventId'', JNull)]) = JObj kvs"
        using e False msgs
        by (auto simp: poll_returns_def is_object_def split: outcome.splits jval.splits)
      let ?entry = "JObj (foldl (\<lambda>d (k, v). dict_set d k v) [(''email'', JStr (e_email e))] kvs)"
      let ?s1 = "emit s ''log'' (Message (''[Outreach] Reply detected from '' @ e_email e))"
      let ?s2 = "?s1\<lparr>candidate_store :=
                      fst (update_status (candidate_store ?s1) (e_email e) ''Accepted'')\<rparr>"
      let ?s4 = "emit (emit ?s2 ''candidate_status'' (StatusByEmail (e_email e) ''Accepted''))
                   ''log'' (Message (''[Scheduling] Meeting created for '' @ e_email e))"
      have step: "poll_pass E m n vis (e # es) sch s
                    = poll_pass E m n (vis @ [e\<lparr>e_done := True\<rparr>]) es (sch @ [?entry]) ?s4"
        using False msgs nonempty mj obj by (simp add: Let_def with_email_def)
      show ?thesis
        unfolding step
        using Cons.IH[OF rest, of "vis @ [e\<lparr>e_done := True\<rparr>]" "sch @ [?entry]" ?s4]
          False msgs nonempty
        by auto
    qed
  qed
qed

section \<open>Where a run publishes \<open>done\<close>\<close>

lemma flow_task_outcome:
  assumes "flow_task fuel E payload s = Some (s', r)"
  shows "\<not> active_run s' \<and>
         length (of_kind ''done'' (queue s')) =
           length (of_kind ''done'' (queue s)) + (case r of Raised _ \<Rightarrow> 0 | Returned _ \<Rightarrow> 1)"
proof -
  let ?subject = "py_or_str (p_subject payload) ''Hackathon Invitation''"
  let ?tmpl = "py_or_str (p_bodyTemplate payload) default_template"
  let ?s0 = "emit s ''log'' (Message ''[Outreach] Starting outreach flow'')"
  obtain s1 r1 where fs: "flow_send E ?subject ?tmpl (p_candidates payload) ?s0 [] = (s1, r1)"
    by (cases "flow_send E ?subject ?tmpl (p_candidates payload) ?s0 []")
  have q1: "of_kind ''done'' (queue s1) = of_kind ''done'' (queue s)"
    using flow_send_quiet[of E ?subject ?tmpl "p_candidates payload" ?s0 "[]"] fs by simp
  from assms obtain sb where fb: "flow_body fuel E payload s = Some (sb, r)"
    and s': "s' = sb\<lparr>active_run := False\<rparr>"
    by (auto simp: flow_task_def split: option.splits)
  have "length (of_kind ''done'' (queue sb)) =
           length (of_kind ''done'' (queue s)) + (case r of Raised _ \<Rightarrow> 0 | Returned _ \<Rightarrow> 1)"
  proof (cases r1)
    case (Raised x)
    then show ?thesis using fb fs q1 by (auto simp: flow_body_def Let_def)
  next
    case (Returned enriched)
    let ?s2 = "emit s1 ''candidates'' (CandList (map enriched_view enriched))"
    let ?deadline = "loop_time E 0 + (case p_windowMinutes payload of None \<Rightarrow> 30 | Some w \<Rightarrow> w) * 60"
    from fb fs Returned obtain s3 r3 where
      pl: "poll_loop fuel E (meeting_of payload) ?deadline 0 enriched [] ?s2 = Some (s3, r3)"
      by (auto simp: flow_body_def Let_def split: option.splits)
    have q3: "of_kind ''done'' (queue s3) = of_kind ''done'' (queue s)"
      using poll_loop_quiet[OF pl] q1 by simp
    show ?thesis using fb fs Returned pl q3
      by (cases r3) (auto simp: flow_body_def Let_def)
  qed
  then show ?thesis using s' by simp
qed

lemma flow_task_ends:
  assumes "\<not> loop_time E (Suc k)
             < loop_time E 0 + (case p_windowMinutes payload of None \<Rightarrow> 30 | Some w \<Rightarrow> w) * 60"
  shows "\<exists>res. flow_task (Suc k) E payload s = Some res"
proof -
  let ?subject = "py_or_str (p_subject payload) ''Hackathon Invitation''"
  let ?tmpl = "py_or_str (p_bodyTemplate payload) default_template"
  let ?s0 = "emit s ''log'' (Message ''[Outreach] Starting outreach flow'')"
  obtain s1 r1 where fs: "flow_send E ?subject ?tmpl (p_candidates payload) ?s0 [] = (s1, r1)"
    by (cases "flow_send E ?subject ?tmpl (p_candidates payload) ?s0 []")
  show ?thesis
  proof (cases r1)
    case (Raised x)
    then show ?thesis using fs by (simp add: flow_task_def flow_body_def Let_def)
  next
    case (Returned enriched)
    let ?s2 = "emit s1 ''candidates'' (CandList (map enriched_view enriched))"
    let ?deadline = "loop_time E 0 + (case p_windowMinutes payload of None \<Rightarrow> 30 | Some w \<Rightarrow> w) * 60"
    have "\<not> loop_time E (Suc (0 + k)) < ?deadline" using assms by simp
    from poll_loop_ends[OF this, of "meeting_of payload" enriched "[]" ?s2]
    obtain s3 r3 where "poll_loop (Suc k) E (meeting_of payload) ?deadline 0 enriched [] ?s2 = Some (s3, r3)"
      by auto
    then show ?thesis using fs Returned
      by (cases r3) (simp_all add: flow_task_def flow_body_def Let_def)
  qed
qed

lemma run_orchestrator_no_done:
  "of_kind ''done'' (queue (fst (run_orchestrator E topic on_log on_candidates_found
       on_candidate_status s))) = of_kind ''done'' (queue s)"
proof (cases "dummy_run E")
  case True
  then show ?thesis by (simp add: run_orchestrator_dummy_queue)
next
  case False
  then show ?thesis
    by (cases "crew_kickoff E topic") (simp_all add: run_orchestrator_def Let_def on_log_def)
qed

text \<open>
  The task of \<open>POST /run\<close> publishes \<open>done\<close> once and clears the flag, whether
  \<open>run_orchestrator\<close> returns or raises.
\<close>

lemma run_in_thread_always_done:
  "of_kind ''done'' (queue (fst (run_in_thread E topic s)))
     = of_kind ''done'' (queue s) @ [DoneOk True] \<and>
   \<not> active_run (fst (run_in_thread E topic s))"
  by (simp add: run_in_thread_queue run_in_thread_flag run_orchestrator_no_done)

section \<open>Examples: evaluating the send step\<close>

lemma default_renders_Ada:
  "str_format default_template ''Ada'' = Returned ''Hi Ada, we'd love to invite you.''"
  by (simp add: str_format_def default_template_def get_field_def is_digit_def)

lemma default_renders_Bob:
  "str_format default_template ''Bob'' = Returned ''Hi Bob, we'd love to invite you.''"
  by (simp add: str_format_def default_template_def get_field_def is_digit_def)

lemma token_ada: "ref_token plain_env ''ada@x.com'' ''Hi'' = ''209''"
  by (simp add: ref_token_def plain_env_def hex_of_nat.simps hex_digit_def)

lemma token_bob: "ref_token plain_env ''bob@x.com'' ''Hi'' = ''209''"
  by (simp add: ref_token_def plain_env_def hex_of_nat.simps hex_digit_def)

lemma failing_hash [simp]: "py_hash (failing_for bad) = py_hash plain_env"
  and replying_hash [simp]: "py_hash replying_env = py_hash plain_env"
  by (simp_all add: failing_for_def replying_env_def)

lemma ref_token_failing [simp]: "ref_token (failing_for bad) = ref_token plain_env"
  and ref_token_replying [simp]: "ref_token replying_env = ref_token plain_env"
  by (simp_all add: ref_token_def fun_eq_iff)

lemma step_plain_ada:
  "send_step plain_env ''Hi'' default_template ada
     = Sent ''ada@x.com'' ''Hi Ada, we'd love to invite you.''
         ''Email successfully sent to ada@x.com. Message ID: 1''"
  by (simp add: send_step_def ada_def default_renders_Ada token_ada plain_env_def)

lemma step_plain_bob:
  "send_step plain_env ''Hi'' default_template bob
     = Sent ''bob@x.com'' ''Hi Bob, we'd love to invite you.''
         ''Email successfully sent to bob@x.com. Message ID: 1''"
  by (simp add: send_step_def bob_def default_renders_Bob token_bob plain_env_def)

lemma step_failing_ada:
  "send_step (failing_for ''ada@x.com'') ''Hi'' default_template ada
     = SendFails ''ada@x.com'' ''Hi Ada, we'd love to invite you.'' (RuntimeError ''Gmail API error'')"
  by (simp add: send_step_def ada_def default_renders_Ada failing_for_def)

lemma payload_of_simps [simp]:
  "p_subject (payload_of t cs) = Some ''Hi''"
  "p_bodyTemplate (payload_of t cs) = Some t"
  "p_candidates (payload_of t cs) = cs"
  "p_windowMinutes (payload_of t cs) = Some 0"
  by (simp_all add: payload_of_def)

lemma default_template_nonempty [simp]: "default_template \<noteq> []"
  by (simp add: default_template_def)

section \<open>An exception in a send: the flow\<close>

text \<open>
  C1, at an input where the code departs from it. \<open>POST /outreach/run-flow\<close> with one
  candidate and a provider that raises on the send: the task ends with the exception, the
  flag is cleared by the \<open>finally\<close>, and the queue holds the opening log line only. No
  \<open>done\<close> is published, since the \<open>emit\<close> of \<open>done\<close> is the last statement of the
  \<open>try\<close> body. (The task of \<open>POST /run\<close> publishes \<open>done\<close> in its \<open>finally\<close>:
  \<open>run_in_thread_always_done\<close>. In general \<open>flow_task_outcome\<close>: one \<open>done\<close> when the
  task returns, none when it raises.)
\<close>

theorem raising_send_ends_run_without_done:
  "run_flow 3 (failing_for ''ada@x.com'') (payload_of default_template [ada]) init_server
     = Some (\<lparr> candidate_store = [],
               queue = [(''log'', Message ''[Outreach] Starting outreach flow'')],
               active_run = False,
               outbox = [(''ada@x.com'', ''Hi'', ''Hi Ada, we'd love to invite you.'', ''209'')] \<rparr>,
             Raised (RuntimeError ''Gmail API error''))"
  by (simp add: run_flow_def run_full_outreach_flow_def flow_task_def flow_body_def Let_def
      init_server_def flow_send_SendFails[OF step_failing_ada] token_ada emit_def)

section \<open>\<open>POST /outreach/send\<close>: the result\<close>

text \<open>An empty \<open>candidates\<close> list is a 400 and leaves the state as it was.\<close>

lemma send_outreach_empty:
  "p_candidates payload = [] \<Longrightarrow>
   send_outreach E s payload = (s, Raised (HTTPException 400 ''candidates required''))"
  by (simp add: send_outreach_def Let_def)

lemma send_outreach_plain_ada:
  "send_outreach plain_env init_server (payload_of default_template [ada])
      = (track_contacted
           (init_server\<lparr>outbox := [(''ada@x.com'', ''Hi'', ''Hi Ada, we'd love to invite you.'', ''209'')]\<rparr>)
           ''Ada'' ''ada@x.com'' ''209'',
         Returned (JObj [(''ok'', JBool True),
                         (''sent'', JArr [JObj [(''ok'', JBool False), (''to'', JStr ''ada@x.com'')]])]))"
proof -
  have po: "parse_or plain_env reply fallback = fallback" for reply fallback
    by (simp add: parse_or_def plain_env_def)
  have se: "send_each plain_env ''Hi'' default_template [ada] init_server []
      = (track_contacted
           (init_server\<lparr>outbox := [(''ada@x.com'', ''Hi'', ''Hi Ada, we'd love to invite you.'', ''209'')]\<rparr>)
           ''Ada'' ''ada@x.com'' ''209'',
         Returned [JObj [(''ok'', JBool False), (''to'', JStr ''ada@x.com'')]])"
    by (subst send_each_Sent[OF step_plain_ada]) (simp add: token_ada po ada_def init_server_def)
  show ?thesis
    by (simp add: send_outreach_def Let_def se)
qed


section \<open>A template that does not render\<close>




section \<open>A failure for one candidate and the others\<close>




section \<open>The token is a function of email and subject\<close>

lemma sent_since_ok:
  "\<exists>ys. outbox s' = outbox s @ ys \<and> list_all P ys \<Longrightarrow> list_all P (sent_since s s')"
  by (auto simp: sent_since_def)

lemma send_outreach_tokens:
  "list_all (token_ok E) (sent_since s (fst (send_outreach E s payload)))"
proof (cases "p_candidates payload = []")
  case True
  then show ?thesis by (simp add: send_outreach_empty sent_since_def)
next
  case False
  let ?subject = "py_or_str (p_subject payload) ''Hackathon Invitation''"
  let ?tmpl = "py_or_str (p_bodyTemplate payload) default_template"
  have "fst (send_outreach E s payload)
          = fst (send_each E ?subject ?tmpl (p_candidates payload) s [])"
    using False by (simp add: send_outreach_def Let_def split: prod.splits outcome.splits)
  then show ?thesis
    using send_each_outbox[of E ?subject ?tmpl "p_candidates payload" s "[]"]
    by (simp add: sent_since_ok)
qed

lemma flow_task_tokens:
  assumes "flow_task fuel E payload s = Some (s', r)"
  shows "list_all (token_ok E) (sent_since s s')"
proof -
  let ?subject = "py_or_str (p_subject payload) ''Hackathon Invitation''"
  let ?tmpl = "py_or_str (p_bodyTemplate payload) default_template"
  let ?s0 = "emit s ''log'' (Message ''[Outreach] Starting outreach flow'')"
  obtain s1 r1 where fs: "flow_send E ?subject ?tmpl (p_candidates payload) ?s0 [] = (s1, r1)"
    by (cases "flow_send E ?subject ?tmpl (p_candidates payload) ?s0 []")
  have o1: "\<exists>ys. outbox s1 = outbox s @ ys \<and> list_all (token_ok E) ys"
    using flow_send_outbox[of E ?subject ?tmpl "p_candidates payload" ?s0 "[]"] fs by simp
  from assms obtain sb where fb: "flow_body fuel E payload s = Some (sb, r)"
    and s': "s' = sb\<lparr>active_run := False\<rparr>"
    by (auto simp: flow_task_def split: option.splits)
  have "outbox sb = outbox s1"
  proof (cases r1)
    case (Raised x)
    then show ?thesis using fb fs by (auto simp: flow_body_def Let_def)
  next
    case (Returned enriched)
    let ?s2 = "emit s1 ''candidates'' (CandList (map enriched_view enriched))"
    let ?deadline = "loop_time E 0 + (case p_windowMinutes payload of None \<Rightarrow> 30 | Some w \<Rightarrow> w) * 60"
    from fb fs Returned obtain s3 r3 where
      pl: "poll_loop fuel E (meeting_of payload) ?deadline 0 enriched [] ?s2 = Some (s3, r3)"
      by (auto simp: flow_body_def Let_def split: option.splits)
    have "outbox s3 = outbox s1" using poll_loop_quiet[OF pl] by simp
    then show ?thesis using fb fs Returned pl
      by (cases r3) (auto simp: flow_body_def Let_def)
  qed
  then show ?thesis using o1 s' by (simp add: sent_since_ok)
qed



end
